theory Spec2Isabelle
  imports Main "HOL-Library.Sublist" "HOL-Library.Word"
begin

section \<open>Python values\<close>

text \<open>
  The functions verified here are those of \<^verbatim>\<open>saleor/plugins/webhook/utils.py\<close> and
  \<^verbatim>\<open>saleor/product/search.py\<close>. A Python exception is a value of \<open>py_exc\<close>, and a
  function that can raise returns \<open>py_exc + 'a\<close> with \<open>Inl\<close> for the exception.
  A Python string is a list of characters; a \<open>char\<close> stands for a code point below 256.
\<close>

datatype py_exc =
  KeyError | TypeError | ValueError | AttributeError | AssertionError | OverflowError
  | InvalidOperation | DatabaseError | IntegrityError

definition and_then :: "py_exc + 'a \<Rightarrow> ('a \<Rightarrow> py_exc + 'b) \<Rightarrow> py_exc + 'b" where
  "and_then r f = (case r of Inl e \<Rightarrow> Inl e | Inr x \<Rightarrow> f x)"

fun sequence :: "(py_exc + 'a) list \<Rightarrow> py_exc + 'a list" where
  "sequence [] = Inr []"
| "sequence (r # rs) = and_then r (\<lambda>x. and_then (sequence rs) (\<lambda>xs. Inr (x # xs)))"

subsection \<open>Strings: \<open>str.split\<close>, \<open>str.strip\<close>, \<open>str.join\<close>, \<open>str.lower\<close>\<close>

text \<open>\<open>s.split(sep)\<close> for a separator of one character: never an empty list.\<close>

fun split :: "char \<Rightarrow> string \<Rightarrow> string list" where
  "split sep [] = [[]]"
| "split sep (c # cs) =
     (if c = sep then [] # split sep cs
      else (case split sep cs of [] \<Rightarrow> [[c]] | w # ws \<Rightarrow> (c # w) # ws))"

text \<open>\<open>sep.join(xs)\<close>.\<close>

fun join :: "string \<Rightarrow> string list \<Rightarrow> string" where
  "join sep [] = []"
| "join sep [x] = x"
| "join sep (x # y # ys) = x @ sep @ join sep (y # ys)"

text \<open>The code points below 256 that \<open>str.isspace\<close> accepts.\<close>

definition isspace :: "char \<Rightarrow> bool" where
  "isspace c = ((of_char c :: nat) \<in> {9, 10, 11, 12, 13, 28, 29, 30, 31, 32, 133, 160})"

definition strip :: "string \<Rightarrow> string" where
  "strip s = rev (dropWhile isspace (rev (dropWhile isspace s)))"

text \<open>
  \<open>str.lower\<close> on code points below 256: the letters A to Z and the Latin-1 capitals
  (192 to 222 without the multiplication sign 215) move up by 32.
\<close>

definition lower_char :: "char \<Rightarrow> char" where
  "lower_char c =
     (let n = (of_char c :: nat)
      in if (65 \<le> n \<and> n \<le> 90) \<or> (192 \<le> n \<and> n \<le> 222 \<and> n \<noteq> 215)
         then char_of (n + 32) else c)"

definition lower :: "string \<Rightarrow> string" where
  "lower s = map lower_char s"

subsection \<open>Integers: \<open>str(int)\<close> and \<open>int(str)\<close>\<close>

definition digit_char :: "nat \<Rightarrow> char" where
  "digit_char d = char_of (48 + d)"

definition isdigit :: "char \<Rightarrow> bool" where
  "isdigit c = (48 \<le> (of_char c :: nat) \<and> (of_char c :: nat) \<le> 57)"

definition digit_val :: "char \<Rightarrow> nat" where
  "digit_val c = of_char c - 48"

fun str_nat :: "nat \<Rightarrow> string" where
  "str_nat n = (if n < 10 then [digit_char n] else str_nat (n div 10) @ [digit_char (n mod 10)])"

declare str_nat.simps [simp del]

definition str_int :: "int \<Rightarrow> string" where
  "str_int i = (if i < 0 then CHR ''-'' # str_nat (nat (- i)) else str_nat (nat i))"

text \<open>
  The digits of an integer literal: a digit first and last, and single underscores
  between digits.
\<close>

fun int_body_ok :: "string \<Rightarrow> bool" where
  "int_body_ok [] = False"
| "int_body_ok [c] = isdigit c"
| "int_body_ok (c # d # cs) =
     (isdigit c \<and> (if d = CHR ''_'' then int_body_ok cs else int_body_ok (d # cs)))"

definition digits_value :: "string \<Rightarrow> nat" where
  "digits_value ds = foldl (\<lambda>a c. 10 * a + digit_val c) 0 ds"

text \<open>
  The white space \<open>int\<close> accepts around the digits, among the code points below 256:
  tab to carriage return, the space, and the two spaces beyond ASCII (133 and 160). The
  separators 28 to 31, which \<open>str.strip\<close> removes, are not among them.
\<close>

definition int_space :: "char \<Rightarrow> bool" where
  "int_space c = ((of_char c :: nat) \<in> {9, 10, 11, 12, 13, 32, 133, 160})"

text \<open>The default of \<open>sys.int_max_str_digits\<close>.\<close>

definition int_max_str_digits :: nat where
  "int_max_str_digits = 4300"

text \<open>
  \<open>int(s)\<close> in base 10: white space around, an optional sign, then the digits, of
  which there are at most \<open>int_max_str_digits\<close> (underscores and the sign do not count).
  Anything else raises \<open>ValueError\<close>.
\<close>

definition py_int :: "string \<Rightarrow> py_exc + int" where
  "py_int s =
     (let t = rev (dropWhile int_space (rev (dropWhile int_space s)));
          neg = (t \<noteq> [] \<and> hd t = CHR ''-'');
          body = (if t \<noteq> [] \<and> (hd t = CHR ''-'' \<or> hd t = CHR ''+'') then tl t else t)
      in if int_body_ok body \<and> length (filter isdigit body) \<le> int_max_str_digits
         then Inr ((if neg then - 1 else 1) *
                   int (digits_value (filter (\<lambda>c. c \<noteq> CHR ''_'') body)))
         else Inl ValueError)"

section \<open>Payment app identifiers\<close>

text \<open>
  \<^verbatim>\<open>APP_ID_PREFIX = "app"\<close>. An \<open>App\<close> is a database object; its primary key is
  \<open>None\<close> until it is saved, and then an integer of the database, of 64 bits with a
  sign (\<open>sint\<close> reads it).
\<close>

definition APP_ID_PREFIX :: string where
  "APP_ID_PREFIX = ''app''"

record App =
  App_pk :: "64 word option"

record PaymentAppData =
  app_pk :: int
  name :: string

text \<open>How an f-string renders \<open>app.pk\<close>.\<close>

definition format_pk :: "64 word option \<Rightarrow> string" where
  "format_pk p = (case p of None \<Rightarrow> ''None'' | Some i \<Rightarrow> str_int (sint i))"

definition to_payment_app_id :: "App \<Rightarrow> string \<Rightarrow> string" where
  "to_payment_app_id app gateway_id =
     APP_ID_PREFIX @ '':'' @ format_pk (App_pk app) @ '':'' @ gateway_id"

text \<open>
  \<open>from_payment_app_id\<close>: the \<open>try\<close> around \<open>int\<close> catches \<open>TypeError\<close> and
  \<open>ValueError\<close>; any other exception would leave the function.
\<close>

definition from_payment_app_id :: "string \<Rightarrow> py_exc + PaymentAppData option" where
  "from_payment_app_id app_gateway_id =
     (let splitted_id = split CHR '':'' app_gateway_id
      in if length splitted_id = 3 \<and> splitted_id ! 0 = APP_ID_PREFIX
            \<and> (\<forall>seg \<in> set splitted_id. seg \<noteq> [])
         then (case py_int (splitted_id ! 1) of
                 Inl e \<Rightarrow> (if e = TypeError \<or> e = ValueError then Inr None else Inl e)
               | Inr pk \<Rightarrow> Inr (Some \<lparr>app_pk = pk, name = splitted_id ! 2\<rparr>))
         else Inr None)"

section \<open>Decoded JSON\<close>

text \<open>
  The value \<open>json.loads\<close> gives for a JSON text. A float is named by the text \<open>repr\<close>
  prints for it, since the code only formats floats and hands them to \<open>Decimal\<close>.
  A dict is the list of its items in insertion order; its keys are distinct. An integer
  has at most \<open>int_max_str_digits\<close> digits, since \<open>json.loads\<close> reads it with \<open>int\<close>;
  so \<open>str\<close> of it does not raise.
\<close>

datatype pyfloat = PyFloat string

datatype json =
  JNull | JBool bool | JInt int | JFloat pyfloat | JStr string
  | JList "json list" | JDict "(string \<times> json) list"

text \<open>The truth value of \<open>if v:\<close> and \<open>not v\<close>.\<close>

fun truthy :: "json \<Rightarrow> bool" where
  "truthy JNull = False"
| "truthy (JBool b) = b"
| "truthy (JInt i) = (i \<noteq> 0)"
| "truthy (JFloat (PyFloat r)) = (r \<noteq> ''0.0'' \<and> r \<noteq> ''-0.0'')"
| "truthy (JStr s) = (s \<noteq> [])"
| "truthy (JList xs) = (xs \<noteq> [])"
| "truthy (JDict kvs) = (kvs \<noteq> [])"

text \<open>\<open>v.get(key, default)\<close>: only a dict has the method.\<close>

fun get :: "json \<Rightarrow> string \<Rightarrow> json \<Rightarrow> py_exc + json" where
  "get (JDict kvs) key dflt = Inr (case map_of kvs key of None \<Rightarrow> dflt | Some v \<Rightarrow> v)"
| "get v key dflt = Inl AttributeError"

text \<open>
  \<open>v[key]\<close> for a string key: \<open>KeyError\<close> for a dict without the key, \<open>TypeError\<close> for
  a list or string (their indices are integers) and for a value with no subscript.
\<close>

fun subscript :: "json \<Rightarrow> string \<Rightarrow> py_exc + json" where
  "subscript (JDict kvs) key = (case map_of kvs key of None \<Rightarrow> Inl KeyError | Some v \<Rightarrow> Inr v)"
| "subscript v key = Inl TypeError"

text \<open>\<open>for x in v\<close>: the items of a list, the keys of a dict, the characters of a string.\<close>

fun iterate :: "json \<Rightarrow> py_exc + json list" where
  "iterate (JList xs) = Inr xs"
| "iterate (JDict kvs) = Inr (map (\<lambda>kv. JStr (fst kv)) kvs)"
| "iterate (JStr s) = Inr (map (\<lambda>c. JStr [c]) s)"
| "iterate v = Inl TypeError"

text \<open>\<open>key in v\<close> for a string key.\<close>

fun contains :: "json \<Rightarrow> string \<Rightarrow> py_exc + bool" where
  "contains (JDict kvs) key = Inr (key \<in> fst ` set kvs)"
| "contains (JList xs) key = Inr (JStr key \<in> set xs)"
| "contains (JStr s) key = Inr (sublist key s)"
| "contains v key = Inl TypeError"

subsection \<open>\<open>str\<close> and \<open>repr\<close> of a decoded value\<close>

definition hex_digit :: "nat \<Rightarrow> char" where
  "hex_digit d = (if d < 10 then char_of (48 + d) else char_of (87 + d))"





subsection \<open>\<open>decimal.Decimal\<close>\<close>

text \<open>
  A decimal is a sign, a coefficient and an exponent, an infinity, or a NaN (quiet or
  signalling, with its payload). The decimal made from a float is the exact value of
  that float and is kept as such.
\<close>

datatype decimal =
  DecFinite bool nat int | DecInfinity bool | DecNaN bool bool nat | DecFromFloat pyfloat

text \<open>
  A finite decimal is made exactly or not at all. With \<open>d\<close> digits in the coefficient
  (one for zero) and the exponent \<open>e\<close>, the C implementation on 64 bits wants
  \<open>e + d - 1 \<le> MAX_EMAX\<close> and \<open>MIN_ETINY \<le> e\<close>, and raises \<open>InvalidOperation\<close>
  otherwise.
\<close>

definition MAX_EMAX :: int where
  "MAX_EMAX = 999999999999999999"

definition MIN_ETINY :: int where
  "MIN_ETINY = - 1999999999999999997"

definition finite_decimal :: "bool \<Rightarrow> nat \<Rightarrow> int \<Rightarrow> decimal option" where
  "finite_decimal neg coeff e =
     (if e + int (length (str_nat coeff)) - 1 \<le> MAX_EMAX \<and> MIN_ETINY \<le> e
      then Some (DecFinite neg coeff e) else None)"

text \<open>The exponent part of a numeric string: nothing, or \<open>e\<close>, an optional sign and digits.\<close>

definition decimal_exponent :: "string \<Rightarrow> int option" where
  "decimal_exponent r =
     (if r = [] then Some 0
      else (let x = tl r;
                ds = (if x \<noteq> [] \<and> (hd x = CHR ''-'' \<or> hd x = CHR ''+'') then tl x else x)
            in if ds \<noteq> [] \<and> list_all isdigit ds
               then Some ((if hd x = CHR ''-'' then - 1 else 1) * int (digits_value ds))
               else None))"

text \<open>
  \<open>Decimal(s)\<close> for a string, after the grammar of the \<open>decimal\<close> module: white space
  around (that of \<open>str.strip\<close>) and underscores are dropped, letters are read in either
  case, and the string is an optional sign and then \<open>Inf\<close>, \<open>Infinity\<close>, \<open>NaN\<close> or
  \<open>sNaN\<close> with optional digits, or digits with an optional point and an optional
  exponent.
\<close>

definition decimal_of_string :: "string \<Rightarrow> decimal option" where
  "decimal_of_string s =
     (let t = lower (filter (\<lambda>c. c \<noteq> CHR ''_'') (strip s));
          neg = (t \<noteq> [] \<and> hd t = CHR ''-'');
          body = (if t \<noteq> [] \<and> (hd t = CHR ''-'' \<or> hd t = CHR ''+'') then tl t else t);
          mant = takeWhile (\<lambda>c. c \<noteq> CHR ''e'') body;
          ip = takeWhile (\<lambda>c. c \<noteq> CHR ''.'') mant;
          fp = drop (Suc (length ip)) mant
      in if body = ''inf'' \<or> body = ''infinity'' then Some (DecInfinity neg)
         else if take 3 body = ''nan'' \<and> list_all isdigit (drop 3 body)
         then Some (DecNaN neg False (digits_value (drop 3 body)))
         else if take 4 body = ''snan'' \<and> list_all isdigit (drop 4 body)
         then Some (DecNaN neg True (digits_value (drop 4 body)))
         else if list_all isdigit ip \<and> list_all isdigit fp \<and> (ip \<noteq> [] \<or> fp \<noteq> [])
         then (case decimal_exponent (dropWhile (\<lambda>c. c \<noteq> CHR ''e'') body) of
                 None \<Rightarrow> None
               | Some e \<Rightarrow> finite_decimal neg (digits_value (ip @ fp)) (e - int (length fp)))
         else None)"

text \<open>A Python \<open>int\<close> among the decoded values: \<open>bool\<close> is a subclass of \<open>int\<close>.\<close>

definition int_of_json :: "json \<Rightarrow> int option" where
  "int_of_json v =
     (case v of JInt i \<Rightarrow> Some i | JBool b \<Rightarrow> Some (if b then 1 else 0) | _ \<Rightarrow> None)"

text \<open>The integers of the C type \<open>long\<close>, of 64 bits.\<close>

definition c_long :: "int \<Rightarrow> bool" where
  "c_long i = (- (2 ^ 63) \<le> i \<and> i < 2 ^ 63)"

text \<open>
  The digits of the list form, read from the left: each is an integer from 0 to 9. One
  that is no integer, or out of this range, raises \<open>ValueError\<close>; one that does not fit
  a \<open>long\<close> raises \<open>OverflowError\<close>. Leading zeros do not count.
\<close>

fun decimal_digits :: "json list \<Rightarrow> nat \<Rightarrow> py_exc + nat" where
  "decimal_digits [] acc = Inr acc"
| "decimal_digits (d # ds) acc =
     (case int_of_json d of
        None \<Rightarrow> Inl ValueError
      | Some i \<Rightarrow>
          if c_long i
          then (if 0 \<le> i \<and> i \<le> 9 then decimal_digits ds (10 * acc + nat i)
                else Inl ValueError)
          else Inl OverflowError)"

definition decimal_coefficient :: "json \<Rightarrow> py_exc + nat" where
  "decimal_coefficient ds =
     (case ds of JList digits \<Rightarrow> decimal_digits digits 0 | _ \<Rightarrow> Inl ValueError)"

text \<open>
  \<open>Decimal(xs)\<close> for a list: the form \<open>[sign, digits, exponent]\<close>, read in the order
  sign, exponent, digits. The sign is 0 or 1. The exponent is one of the strings \<open>F\<close>
  (infinity), \<open>n\<close> (NaN) and \<open>N\<close> (sNaN), or an integer. An integer that does not fit
  64 bits raises \<open>OverflowError\<close>; every other malformed list raises \<open>ValueError\<close>.
\<close>

definition decimal_of_sequence :: "json list \<Rightarrow> py_exc + decimal" where
  "decimal_of_sequence xs =
     (case xs of
        [s, ds, e] \<Rightarrow>
          (case int_of_json s of
             None \<Rightarrow> Inl ValueError
           | Some sg \<Rightarrow>
               if c_long sg
               then (if sg = 0 \<or> sg = 1
                     then (case e of
                             JStr x \<Rightarrow>
                               if x = ''F''
                               then and_then (decimal_coefficient ds)
                                      (\<lambda>c. Inr (DecInfinity (sg = 1)))
                               else if x = ''n'' \<or> x = ''N''
                               then and_then (decimal_coefficient ds)
                                      (\<lambda>c. Inr (DecNaN (sg = 1) (x = ''N'') c))
                               else Inl ValueError
                           | _ \<Rightarrow>
                               (case int_of_json e of
                                  None \<Rightarrow> Inl ValueError
                                | Some ex \<Rightarrow>
                                    if c_long ex
                                    then and_then (decimal_coefficient ds)
                                           (\<lambda>c. case finite_decimal (sg = 1) c ex of
                                                  None \<Rightarrow> Inl InvalidOperation
                                                | Some d \<Rightarrow> Inr d)
                                    else Inl OverflowError))
                     else Inl ValueError)
               else Inl OverflowError)
      | _ \<Rightarrow> Inl ValueError)"

text \<open>
  \<open>Decimal(v)\<close>: a string that is no numeric string raises \<open>InvalidOperation\<close>, a
  subclass of \<open>DecimalException\<close>; \<open>None\<close> and a dict raise \<open>TypeError\<close>.
\<close>

fun Decimal :: "json \<Rightarrow> py_exc + decimal" where
  "Decimal (JStr s) = (case decimal_of_string s of None \<Rightarrow> Inl InvalidOperation | Some d \<Rightarrow> Inr d)"
| "Decimal (JInt i) = Inr (DecFinite (i < 0) (nat \<bar>i\<bar>) 0)"
| "Decimal (JBool b) = Inr (DecFinite False (if b then 1 else 0) 0)"
| "Decimal (JFloat f) = Inr (DecFromFloat f)"
| "Decimal (JList xs) = decimal_of_sequence xs"
| "Decimal JNull = Inl TypeError"
| "Decimal (JDict kvs) = Inl TypeError"

text \<open>\<open>isinstance(e, decimal.DecimalException)\<close>.\<close>

definition is_DecimalException :: "py_exc \<Rightarrow> bool" where
  "is_DecimalException e = (e = InvalidOperation)"

section \<open>Response parsers\<close>

subsection \<open>Tax data\<close>

text \<open>
  Modelled from the spec: \<open>TaxData\<close> and \<open>TaxLineData\<close> are declared in
  \<^verbatim>\<open>saleor/core/taxes.py\<close>, which is not among the sources; the fields are the keyword
  arguments the parsers pass. \<open>id\<close> and \<open>currency\<close> are stored as decoded.
\<close>

record TaxLineData =
  line_id :: json
  line_currency :: json
  unit_net_amount :: decimal
  unit_gross_amount :: decimal
  line_total_gross_amount :: decimal
  line_total_net_amount :: decimal
  tax_rate :: decimal

record TaxData =
  tax_currency :: json
  total_net_amount :: decimal
  total_gross_amount :: decimal
  subtotal_net_amount :: decimal
  subtotal_gross_amount :: decimal
  shipping_price_gross_amount :: decimal
  shipping_price_net_amount :: decimal
  shipping_tax_rate :: decimal
  lines :: "TaxLineData list"

text \<open>\<open>decimal.Decimal(response[key])\<close>: the subscript first, then the conversion.\<close>

definition decimal_at :: "json \<Rightarrow> string \<Rightarrow> py_exc + decimal" where
  "decimal_at response key = and_then (subscript response key) Decimal"

definition unsafe_parse_tax_line_data :: "json \<Rightarrow> py_exc + TaxLineData" where
  "unsafe_parse_tax_line_data tax_line_data_response =
     and_then (subscript tax_line_data_response ''id'') (\<lambda>i.
     and_then (subscript tax_line_data_response ''currency'') (\<lambda>cur.
     and_then (decimal_at tax_line_data_response ''unit_net_amount'') (\<lambda>una.
     and_then (decimal_at tax_line_data_response ''unit_gross_amount'') (\<lambda>uga.
     and_then (decimal_at tax_line_data_response ''total_gross_amount'') (\<lambda>tga.
     and_then (decimal_at tax_line_data_response ''total_net_amount'') (\<lambda>tna.
     and_then (decimal_at tax_line_data_response ''tax_rate'') (\<lambda>rate.
     Inr \<lparr>line_id = i, line_currency = cur, unit_net_amount = una, unit_gross_amount = uga,
          line_total_gross_amount = tga, line_total_net_amount = tna, tax_rate = rate\<rparr>)))))))"

definition unsafe_parse_tax_data :: "json \<Rightarrow> py_exc + TaxData" where
  "unsafe_parse_tax_data tax_data_response =
     and_then (subscript tax_data_response ''currency'') (\<lambda>cur.
     and_then (decimal_at tax_data_response ''total_net_amount'') (\<lambda>tna.
     and_then (decimal_at tax_data_response ''total_gross_amount'') (\<lambda>tga.
     and_then (decimal_at tax_data_response ''subtotal_net_amount'') (\<lambda>sna.
     and_then (decimal_at tax_data_response ''subtotal_gross_amount'') (\<lambda>sga.
     and_then (decimal_at tax_data_response ''shipping_price_gross_amount'') (\<lambda>spga.
     and_then (decimal_at tax_data_response ''shipping_price_net_amount'') (\<lambda>spna.
     and_then (decimal_at tax_data_response ''shipping_tax_rate'') (\<lambda>rate.
     and_then (subscript tax_data_response ''lines'') (\<lambda>ls.
     and_then (iterate ls) (\<lambda>items.
     and_then (sequence (map unsafe_parse_tax_line_data items)) (\<lambda>parsed.
     Inr \<lparr>tax_currency = cur, total_net_amount = tna, total_gross_amount = tga,
          subtotal_net_amount = sna, subtotal_gross_amount = sga,
          shipping_price_gross_amount = spga, shipping_price_net_amount = spna,
          shipping_tax_rate = rate, lines = parsed\<rparr>)))))))))))"

text \<open>\<open>except (KeyError, decimal.DecimalException): return None\<close>.\<close>

definition parse_tax_data :: "json \<Rightarrow> py_exc + TaxData option" where
  "parse_tax_data response_data =
     (case unsafe_parse_tax_data response_data of
        Inr tax_data \<Rightarrow> Inr (Some tax_data)
      | Inl e \<Rightarrow> (if e = KeyError \<or> is_DecimalException e then Inr None else Inl e))"

subsection \<open>Payment gateways\<close>

text \<open>
  Modelled from the spec: \<open>PaymentGateway\<close>, \<open>PaymentMethodInfo\<close>, \<open>GatewayResponse\<close>
  and \<open>PaymentData\<close> are declared in \<^verbatim>\<open>saleor/payment/interface.py\<close>, which is not
  among the sources; the fields are the keyword arguments the parsers pass and, for
  \<open>PaymentData\<close>, the two attributes they read.
\<close>

record PaymentGateway =
  gateway_id :: string
  gateway_name :: json
  currencies :: json
  config :: json



subsection \<open>Payment actions\<close>

record PaymentMethodInfo =
  brand :: json
  exp_month :: json
  exp_year :: json
  last_4 :: json
  method_name :: json
  method_type :: json

record PaymentData =
  payment_amount :: decimal
  payment_currency :: string

record GatewayResponse =
  action_required :: json
  action_required_data :: json
  amount :: decimal
  currency :: string
  customer_id :: json
  error :: json
  is_success :: bool
  kind :: json
  payment_method_info :: "PaymentMethodInfo option"
  raw_response :: json
  psp_reference :: json
  transaction_id :: json
  transaction_already_processed :: json

definition parse_payment_method_info :: "json \<Rightarrow> py_exc + PaymentMethodInfo option" where
  "parse_payment_method_info payment_method_data =
     (if truthy payment_method_data
      then and_then (get payment_method_data ''brand'' JNull) (\<lambda>b.
           and_then (get payment_method_data ''exp_month'' JNull) (\<lambda>m.
           and_then (get payment_method_data ''exp_year'' JNull) (\<lambda>y.
           and_then (get payment_method_data ''last_4'' JNull) (\<lambda>l.
           and_then (get payment_method_data ''name'' JNull) (\<lambda>n.
           and_then (get payment_method_data ''type'' JNull) (\<lambda>t.
           Inr (Some \<lparr>brand = b, exp_month = m, exp_year = y, last_4 = l,
                      method_name = n, method_type = t\<rparr>)))))))
      else Inr None)"

text \<open>
  The amount: \<open>payment_information.amount\<close> unless the response has the key; then
  \<open>Decimal\<close> of its value, where \<open>except decimal.DecimalException: pass\<close> keeps the
  payment's amount.
\<close>

definition parse_amount :: "PaymentData \<Rightarrow> json \<Rightarrow> py_exc + decimal" where
  "parse_amount payment_information response_data =
     and_then (contains response_data ''amount'') (\<lambda>present.
     if present
     then (case decimal_at response_data ''amount'' of
             Inr d \<Rightarrow> Inr d
           | Inl e \<Rightarrow> (if is_DecimalException e then Inr (payment_amount payment_information)
                       else Inl e))
     else Inr (payment_amount payment_information))"

definition parse_payment_action_response :: "PaymentData \<Rightarrow> json \<Rightarrow> string \<Rightarrow> py_exc + GatewayResponse" where
  "parse_payment_action_response payment_information response_data transaction_kind =
     and_then (get response_data ''error'' JNull) (\<lambda>err.
     and_then (get response_data ''payment_method'' JNull) (\<lambda>payment_method_data.
     and_then (parse_payment_method_info payment_method_data) (\<lambda>info.
     and_then (parse_amount payment_information response_data) (\<lambda>amt.
     and_then (get response_data ''action_required'' (JBool False)) (\<lambda>ar.
     and_then (get response_data ''action_required_data'' JNull) (\<lambda>ard.
     and_then (get response_data ''customer_id'' JNull) (\<lambda>cid.
     and_then (get response_data ''kind'' (JStr transaction_kind)) (\<lambda>k.
     and_then (get response_data ''psp_reference'' JNull) (\<lambda>psp.
     and_then (get response_data ''transaction_id'' (JStr '''')) (\<lambda>tid.
     and_then (get response_data ''transaction_already_processed'' (JBool False)) (\<lambda>tap.
     Inr \<lparr>action_required = ar, action_required_data = ard, amount = amt,
          currency = payment_currency payment_information, customer_id = cid,
          error = err, is_success = (\<not> truthy err), kind = k,
          payment_method_info = info, raw_response = response_data,
          psp_reference = psp, transaction_id = tid,
          transaction_already_processed = tap\<rparr>)))))))))))"

subsection \<open>Shipping methods\<close>










subsection \<open>Reading an entry\<close>


definition is_dict :: "json \<Rightarrow> bool" where
  "is_dict v = (case v of JDict kvs \<Rightarrow> True | _ \<Rightarrow> False)"

section \<open>The database\<close>

text \<open>
  A table holds the rows of one model under their primary keys, and the next key its
  sequence hands out. An object in memory carries its primary key, \<open>None\<close> until it is
  saved, and the values of its fields.
\<close>

record 'r table =
  rows :: "nat \<Rightarrow> 'r option"
  next_pk :: nat

text \<open>
  \<open>Manager.create\<close> and each object of \<open>Manager.bulk_create\<close>: the row gets the next key
  of the sequence, and the object returned carries it. A key that is taken raises
  \<open>IntegrityError\<close>.
\<close>

definition insert_row :: "(nat \<Rightarrow> 'r \<Rightarrow> 'r) \<Rightarrow> 'r \<Rightarrow> 'r table \<Rightarrow> py_exc + ('r \<times> 'r table)" where
  "insert_row set_pk obj t =
     (let k = next_pk t
      in if rows t k \<noteq> None then Inl IntegrityError
         else Inr (set_pk k obj, \<lparr>rows = (rows t)(k \<mapsto> set_pk k obj), next_pk = Suc k\<rparr>))"

fun bulk_create :: "(nat \<Rightarrow> 'r \<Rightarrow> 'r) \<Rightarrow> 'r list \<Rightarrow> 'r table \<Rightarrow> py_exc + ('r list \<times> 'r table)" where
  "bulk_create set_pk [] t = Inr ([], t)"
| "bulk_create set_pk (obj # objs) t =
     and_then (insert_row set_pk obj t) (\<lambda>(created, t').
     and_then (bulk_create set_pk objs t') (\<lambda>(others, t'').
     Inr (created # others, t'')))"

text \<open>
  \<open>obj.save(update_fields=[...])\<close>: \<open>write obj row\<close> is the row with the listed fields
  taken from the object. Without a primary key the call raises \<open>ValueError\<close>, and when no
  row has the key it raises \<open>DatabaseError\<close>.
\<close>

definition save_update_fields ::
  "('o \<Rightarrow> nat option) \<Rightarrow> ('o \<Rightarrow> 'r \<Rightarrow> 'r) \<Rightarrow> 'o \<Rightarrow> 'r table \<Rightarrow> py_exc + 'r table" where
  "save_update_fields pk_of write obj t =
     (case pk_of obj of
        None \<Rightarrow> Inl ValueError
      | Some k \<Rightarrow>
          (case rows t k of
             None \<Rightarrow> Inl DatabaseError
           | Some row \<Rightarrow> Inr (t\<lparr>rows := (rows t)(k \<mapsto> write obj row)\<rparr>)))"

text \<open>
  \<open>Manager.bulk_update(objs, fields)\<close>: every object needs a primary key
  (\<open>ValueError\<close> otherwise). The objects go into one \<open>UPDATE\<close> statement with a
  \<open>CASE\<close> over their keys (PostgreSQL puts no bound on a batch): each row whose key is
  among them takes the listed fields from the first object with that key; a row that is
  gone is left alone, and so is every other row.
\<close>

definition bulk_update ::
  "('o \<Rightarrow> nat option) \<Rightarrow> ('o \<Rightarrow> 'r \<Rightarrow> 'r) \<Rightarrow> 'o list \<Rightarrow> 'r table \<Rightarrow> py_exc + 'r table" where
  "bulk_update pk_of write objs t =
     (if \<exists>obj \<in> set objs. pk_of obj = None then Inl ValueError
      else Inr (t\<lparr>rows := (\<lambda>k. case rows t k of
                                   None \<Rightarrow> None
                                 | Some row \<Rightarrow>
                                     (case find (\<lambda>obj. pk_of obj = Some k) objs of
                                        None \<Rightarrow> Some row
                                      | Some obj \<Rightarrow> Some (write obj row)))\<rparr>))"

text \<open>
  \<open>obj.delete()\<close>: the row under the object's key goes; an object without a key
  cannot be deleted (an \<open>AssertionError\<close>).
\<close>

definition delete :: "('o \<Rightarrow> nat option) \<Rightarrow> 'o \<Rightarrow> 'r table \<Rightarrow> py_exc + 'r table" where
  "delete pk_of obj t =
     (case pk_of obj of
        None \<Rightarrow> Inl AssertionError
      | Some k \<Rightarrow> Inr (t\<lparr>rows := (rows t)(k := None)\<rparr>))"

section \<open>Event deliveries\<close>

text \<open>
  Modelled from the spec: \<open>EventDeliveryStatus\<close>, \<open>EventDelivery\<close> and
  \<open>EventDeliveryAttempt\<close> are declared in \<^verbatim>\<open>saleor/core/models.py\<close> and
  \<open>WebhookResponse\<close> in \<^verbatim>\<open>saleor/plugins/webhook/tasks.py\<close>, which are not among the
  sources. The status is one of PENDING, SUCCESS and FAILED; the fields are those of the
  spec's data model, which the functions below read and write. A delivery refers to its
  payload and its webhook; \<open>'p\<close> and \<open>'w\<close> are the types of these references.
\<close>

datatype EventDeliveryStatus = PENDING | SUCCESS | FAILED

record ('p, 'w) EventDelivery =
  delivery_pk :: "nat option"
  delivery_status :: EventDeliveryStatus
  event_type :: string
  payload :: 'p
  webhook :: 'w
  delivery_created_at :: nat

record EventDeliveryAttempt =
  attempt_pk :: "nat option"
  delivery :: "nat option"
  task_id :: "string option"
  duration :: "pyfloat option"
  response :: "string option"
  request_headers :: "string option"
  response_headers :: "string option"
  attempt_status :: EventDeliveryStatus
  attempt_created_at :: nat

record WebhookResponse =
  content :: string
  webhook_request_headers :: json
  webhook_response_headers :: json
  webhook_status :: EventDeliveryStatus
  webhook_duration :: pyfloat

subsection \<open>\<open>json.dumps\<close>\<close>

text \<open>
  A string between double quotes: the quote, the backslash and the control characters
  with a letter are escaped, and every other code point outside 32 to 126 is written as
  a backslash, \<open>u00\<close> and two hexadecimal digits.
\<close>

definition dumps_char :: "char \<Rightarrow> string" where
  "dumps_char c =
     (let n = (of_char c :: nat)
      in if n = 34 then [CHR 0x5C, CHR 0x22]
         else if n = 92 then [CHR 0x5C, CHR 0x5C]
         else if n = 10 then [CHR 0x5C, CHR ''n'']
         else if n = 13 then [CHR 0x5C, CHR ''r'']
         else if n = 9 then [CHR 0x5C, CHR ''t'']
         else if n = 8 then [CHR 0x5C, CHR ''b'']
         else if n = 12 then [CHR 0x5C, CHR ''f'']
         else if n < 32 \<or> 126 < n
         then [CHR 0x5C, CHR ''u'', CHR ''0'', CHR ''0'', hex_digit (n div 16), hex_digit (n mod 16)]
         else [c])"

definition dumps_str :: "string \<Rightarrow> string" where
  "dumps_str s = [CHR 0x22] @ concat (map dumps_char s) @ [CHR 0x22]"

fun json_dumps :: "json \<Rightarrow> string" where
  "json_dumps JNull = ''null''"
| "json_dumps (JBool b) = (if b then ''true'' else ''false'')"
| "json_dumps (JInt i) = str_int i"
| "json_dumps (JFloat (PyFloat r)) =
     (if r = ''nan'' then ''NaN'' else if r = ''inf'' then ''Infinity''
      else if r = ''-inf'' then ''-Infinity'' else r)"
| "json_dumps (JStr s) = dumps_str s"
| "json_dumps (JList xs) = ''['' @ join '', '' (map json_dumps xs) @ '']''"
| "json_dumps (JDict kvs) =
     ''{'' @ join '', '' (map (\<lambda>kv. dumps_str (fst kv) @ '': '' @ json_dumps (snd kv)) kvs) @ ''}''"

subsection \<open>The functions on deliveries and attempts\<close>

text \<open>
  \<open>now\<close> is the time of the call, which the database layer puts into \<open>created_at\<close>.
\<close>

definition create_event_delivery_list_for_webhooks ::
  "nat \<Rightarrow> 'w list \<Rightarrow> 'p \<Rightarrow> string \<Rightarrow> ('p, 'w) EventDelivery table
     \<Rightarrow> py_exc + (('p, 'w) EventDelivery list \<times> ('p, 'w) EventDelivery table)" where
  "create_event_delivery_list_for_webhooks now webhooks event_payload etype t =
     bulk_create (\<lambda>k d. d\<lparr>delivery_pk := Some k\<rparr>)
       (map (\<lambda>w. \<lparr>delivery_pk = None, delivery_status = PENDING, event_type = etype,
                   payload = event_payload, webhook = w, delivery_created_at = now\<rparr>) webhooks)
       t"

text \<open>
  \<open>create_attempt\<close>: an attempt that refers to a delivery without a primary key cannot
  be saved, which raises \<open>ValueError\<close>. That the delivery is still stored is for the
  database to check when the transaction ends, and is not part of the call.
\<close>

definition create_attempt ::
  "nat \<Rightarrow> ('p, 'w) EventDelivery \<Rightarrow> string option \<Rightarrow> EventDeliveryAttempt table
     \<Rightarrow> py_exc + (EventDeliveryAttempt \<times> EventDeliveryAttempt table)" where
  "create_attempt now d tid t =
     (if delivery_pk d = None then Inl ValueError
      else insert_row (\<lambda>k a. a\<lparr>attempt_pk := Some k\<rparr>)
             \<lparr>attempt_pk = None, delivery = delivery_pk d, task_id = tid, duration = None,
              response = None, request_headers = None, response_headers = None,
              attempt_status = PENDING, attempt_created_at = now\<rparr>
             t)"

text \<open>
  \<open>attempt_update\<close> and \<open>delivery_update\<close> assign to the object and then save the fields
  of \<open>update_fields\<close>. They return the object as assigned and the table.
\<close>

definition attempt_update ::
  "EventDeliveryAttempt \<Rightarrow> WebhookResponse \<Rightarrow> EventDeliveryAttempt table
     \<Rightarrow> py_exc + (EventDeliveryAttempt \<times> EventDeliveryAttempt table)" where
  "attempt_update attempt webhook_response t =
     (let attempt' = attempt
            \<lparr>duration := Some (webhook_duration webhook_response),
             response := Some (content webhook_response),
             response_headers := Some (json_dumps (webhook_response_headers webhook_response)),
             request_headers := Some (json_dumps (webhook_request_headers webhook_response)),
             attempt_status := webhook_status webhook_response\<rparr>
      in and_then
           (save_update_fields attempt_pk
              (\<lambda>a row. row\<lparr>duration := duration a, response := response a,
                             response_headers := response_headers a,
                             request_headers := request_headers a,
                             attempt_status := attempt_status a\<rparr>)
              attempt' t)
           (\<lambda>t'. Inr (attempt', t')))"

definition delivery_update ::
  "('p, 'w) EventDelivery \<Rightarrow> EventDeliveryStatus \<Rightarrow> ('p, 'w) EventDelivery table
     \<Rightarrow> py_exc + (('p, 'w) EventDelivery \<times> ('p, 'w) EventDelivery table)" where
  "delivery_update d status t =
     (let d' = d\<lparr>delivery_status := status\<rparr>
      in and_then
           (save_update_fields delivery_pk (\<lambda>obj row. row\<lparr>delivery_status := delivery_status obj\<rparr>) d' t)
           (\<lambda>t'. Inr (d', t')))"

definition clear_successful_delivery ::
  "('p, 'w) EventDelivery \<Rightarrow> ('p, 'w) EventDelivery table \<Rightarrow> py_exc + ('p, 'w) EventDelivery table" where
  "clear_successful_delivery d t =
     (if delivery_status d = SUCCESS then delete delivery_pk d t else Inr t)"

section \<open>Product search\<close>

text \<open>
  Modelled from the spec: the models \<open>Product\<close>, \<open>ProductVariant\<close>, the assigned
  attributes and their values, and \<open>AttributeInputType\<close> are declared in
  \<^verbatim>\<open>saleor/product/models.py\<close> and \<^verbatim>\<open>saleor/attribute\<close>, which are not among the
  sources; the fields are those \<^verbatim>\<open>search.py\<close> reads and writes. The input types that the
  code does not name are \<open>OTHER_INPUT_TYPE\<close>. A product in memory carries its assigned
  attributes and its variants, as \<open>prefetch_related\<close> loads them; the table holds the
  columns.
\<close>

datatype AttributeInputType =
  DROPDOWN | MULTISELECT | RICH_TEXT | NUMERIC | DATE | DATE_TIME | OTHER_INPUT_TYPE string

record py_datetime =
  year :: nat
  month :: nat
  day :: nat
  hour :: nat
  minute :: nat
  second :: nat
  microsecond :: nat
  utcoffset :: "int option"

record AttributeValue =
  value_name :: string
  rich_text :: json
  date_time :: "py_datetime option"

record Attribute =
  input_type :: AttributeInputType
  attribute_unit :: "string option"

record AssignedAttribute =
  attribute :: Attribute
  attribute_values :: "AttributeValue list"

record ProductVariant =
  sku :: "string option"
  variant_name :: string
  variant_attributes :: "AssignedAttribute list"

text \<open>
  A search vector is the list of its parts in the order \<open>+\<close> combines them; a part
  \<open>SearchVector(Value(a), ..., weight=w)\<close> is the values and the weight.
\<close>

type_synonym SearchVector = "(string option list \<times> char) list"

record ProductColumns =
  product_pk :: "nat option"
  product_name :: string
  description_plaintext :: string
  search_document :: string
  search_vector :: "SearchVector option"
  updated_at :: nat

record Product = ProductColumns +
  attributes :: "AssignedAttribute list"
  variants :: "ProductVariant list"

subsection \<open>Dates as text\<close>

text \<open>\<open>"%0wd" % n\<close>.\<close>

definition zfill :: "nat \<Rightarrow> nat \<Rightarrow> string" where
  "zfill w n = replicate (w - length (str_nat n)) CHR ''0'' @ str_nat n"

text \<open>
  \<open>datetime.isoformat()\<close>: date, \<open>T\<close>, time, the microseconds when they are not zero,
  and the UTC offset of an aware datetime (\<open>utcoffset\<close>, in seconds).
\<close>

definition format_offset :: "int option \<Rightarrow> string" where
  "format_offset off =
     (case off of
        None \<Rightarrow> []
      | Some s \<Rightarrow>
          (let a = nat \<bar>s\<bar>
           in (if s < 0 then ''-'' else ''+'') @ zfill 2 (a div 3600) @ '':''
              @ zfill 2 (a mod 3600 div 60)
              @ (if a mod 60 \<noteq> 0 then '':'' @ zfill 2 (a mod 60) else [])))"

definition isoformat :: "py_datetime \<Rightarrow> string" where
  "isoformat d =
     zfill 4 (year d) @ ''-'' @ zfill 2 (month d) @ ''-'' @ zfill 2 (day d) @ ''T''
     @ zfill 2 (hour d) @ '':'' @ zfill 2 (minute d) @ '':'' @ zfill 2 (second d)
     @ (if microsecond d \<noteq> 0 then ''.'' @ zfill 6 (microsecond d) else [])
     @ format_offset (utcoffset d)"

text \<open>
  \<open>strftime("%Y-%m-%d %H:%M:%S")\<close> on Linux, where the C library writes the year
  without leading zeros: 999 for the year 999.
\<close>

definition strftime :: "py_datetime \<Rightarrow> string" where
  "strftime d =
     str_nat (year d) @ ''-'' @ zfill 2 (month d) @ ''-'' @ zfill 2 (day d) @ '' ''
     @ zfill 2 (hour d) @ '':'' @ zfill 2 (minute d) @ '':'' @ zfill 2 (second d)"

text \<open>\<open>value.date_time.isoformat()\<close>: \<open>None\<close> has no such method.\<close>

definition date_text :: "(py_datetime \<Rightarrow> string) \<Rightarrow> AttributeValue \<Rightarrow> py_exc + string" where
  "date_text fmt v = (case date_time v of None \<Rightarrow> Inl AttributeError | Some d \<Rightarrow> Inr (fmt d))"

subsection \<open>The search document\<close>

text \<open>
  Modelled from the spec: \<open>clean_editor_js\<close> is defined in
  \<^verbatim>\<open>saleor/core/utils/editorjs.py\<close>, which is not among the sources. With
  \<open>to_string=True\<close> it strips rich text to plain text; the functions below take it as
  the parameter \<open>cej\<close>.
\<close>

definition newline :: string where
  "newline = [CHR 0x0A]"

definition PRODUCT_SEARCH_FIELDS :: "(Product \<Rightarrow> string) list" where
  "PRODUCT_SEARCH_FIELDS = [product_name, description_plaintext]"

definition generate_product_fields_search_document_value :: "Product \<Rightarrow> string" where
  "generate_product_fields_search_document_value product =
     (let v = join newline
                (filter (\<lambda>s. s \<noteq> []) (map (\<lambda>field. field product) PRODUCT_SEARCH_FIELDS))
      in lower (if v \<noteq> [] then v @ newline else v))"

text \<open>The \<open>values_list\<close> of one assigned attribute in the document.\<close>

definition document_values_list :: "(json \<Rightarrow> string) \<Rightarrow> AssignedAttribute \<Rightarrow> py_exc + string list" where
  "document_values_list cej assigned_attribute =
     (let t = input_type (attribute assigned_attribute);
          vs = attribute_values assigned_attribute
      in if t = DROPDOWN \<or> t = MULTISELECT then Inr (map value_name vs)
         else if t = RICH_TEXT then Inr (map (\<lambda>v. cej (rich_text v)) vs)
         else if t = NUMERIC
         then (let u = (case attribute_unit (attribute assigned_attribute) of
                          None \<Rightarrow> [] | Some u \<Rightarrow> u)
               in Inr (map (\<lambda>v. value_name v @ u) vs))
         else if t = DATE \<or> t = DATE_TIME then sequence (map (date_text isoformat) vs)
         else Inr [])"

fun attributes_document_loop ::
  "(json \<Rightarrow> string) \<Rightarrow> AssignedAttribute list \<Rightarrow> string \<Rightarrow> py_exc + string" where
  "attributes_document_loop cej [] attribute_data = Inr attribute_data"
| "attributes_document_loop cej (assigned_attribute # rest) attribute_data =
     and_then (document_values_list cej assigned_attribute) (\<lambda>values_list.
     if values_list \<noteq> []
     then attributes_document_loop cej rest (attribute_data @ join newline values_list @ newline)
     else attributes_document_loop cej rest attribute_data)"

definition generate_attributes_search_document_value ::
  "(json \<Rightarrow> string) \<Rightarrow> AssignedAttribute list \<Rightarrow> py_exc + string" where
  "generate_attributes_search_document_value cej assigned_attributes =
     and_then (attributes_document_loop cej assigned_attributes [])
       (\<lambda>attribute_data. Inr (lower attribute_data))"

text \<open>The SKUs of the variants that have one, each on a line.\<close>

definition variant_skus_data :: "Product \<Rightarrow> string" where
  "variant_skus_data product =
     (let d = join newline
                (List.map_filter
                   (\<lambda>v. case sku v of None \<Rightarrow> None | Some s \<Rightarrow> if s \<noteq> [] then Some s else None)
                   (variants product))
      in if d \<noteq> [] then d @ newline else d)"

fun variants_document_loop ::
  "(json \<Rightarrow> string) \<Rightarrow> ProductVariant list \<Rightarrow> string \<Rightarrow> py_exc + string" where
  "variants_document_loop cej [] variants_data = Inr variants_data"
| "variants_document_loop cej (variant # rest) variants_data =
     and_then (generate_attributes_search_document_value cej (variant_attributes variant))
       (\<lambda>variant_attribute_data.
          if variant_attribute_data \<noteq> []
          then variants_document_loop cej rest (variants_data @ variant_attribute_data)
          else variants_document_loop cej rest variants_data)"

definition generate_variants_search_document_value :: "(json \<Rightarrow> string) \<Rightarrow> Product \<Rightarrow> py_exc + string" where
  "generate_variants_search_document_value cej product =
     and_then (variants_document_loop cej (variants product) (variant_skus_data product))
       (\<lambda>variants_data. Inr (lower variants_data))"

definition prepare_product_search_document_value :: "(json \<Rightarrow> string) \<Rightarrow> Product \<Rightarrow> py_exc + string" where
  "prepare_product_search_document_value cej product =
     (let d = generate_product_fields_search_document_value product
      in and_then (generate_attributes_search_document_value cej (attributes product)) (\<lambda>a.
         and_then (generate_variants_search_document_value cej product) (\<lambda>v.
         Inr (lower (d @ a @ v)))))"

subsection \<open>The search vector\<close>

definition vector_values_list :: "(json \<Rightarrow> string) \<Rightarrow> AssignedAttribute \<Rightarrow> py_exc + string list" where
  "vector_values_list cej assigned_attribute =
     (let t = input_type (attribute assigned_attribute);
          vs = attribute_values assigned_attribute
      in if t = DROPDOWN \<or> t = MULTISELECT then Inr (map value_name vs)
         else if t = RICH_TEXT then Inr (map (\<lambda>v. cej (rich_text v)) vs)
         else if t = NUMERIC
         then (let u = (case attribute_unit (attribute assigned_attribute) of
                          None \<Rightarrow> [] | Some u \<Rightarrow> u)
               in Inr (map (\<lambda>v. value_name v @ '' '' @ u) vs))
         else if t = DATE \<or> t = DATE_TIME then sequence (map (date_text strftime) vs)
         else Inr [])"

fun attributes_vector_loop ::
  "(json \<Rightarrow> string) \<Rightarrow> AssignedAttribute list \<Rightarrow> SearchVector option \<Rightarrow> py_exc + SearchVector option" where
  "attributes_vector_loop cej [] sv = Inr sv"
| "attributes_vector_loop cej (assigned_attribute # rest) sv =
     and_then (vector_values_list cej assigned_attribute) (\<lambda>values_list.
     if values_list \<noteq> []
     then (let new_vector = map (\<lambda>v. ([Some v], CHR ''B'')) values_list
           in attributes_vector_loop cej rest
                (case sv of None \<Rightarrow> Some new_vector | Some s \<Rightarrow> Some (s @ new_vector)))
     else attributes_vector_loop cej rest sv)"

definition generate_attributes_search_vector_value ::
  "(json \<Rightarrow> string) \<Rightarrow> AssignedAttribute list \<Rightarrow> py_exc + SearchVector option" where
  "generate_attributes_search_vector_value cej assigned_attributes =
     attributes_vector_loop cej assigned_attributes None"

fun variants_vector_loop ::
  "(json \<Rightarrow> string) \<Rightarrow> ProductVariant list \<Rightarrow> SearchVector \<Rightarrow> py_exc + SearchVector" where
  "variants_vector_loop cej [] sv = Inr sv"
| "variants_vector_loop cej (variant # rest) sv =
     and_then (generate_attributes_search_vector_value cej (variant_attributes variant))
       (\<lambda>attribute_vector.
          case attribute_vector of
            None \<Rightarrow> variants_vector_loop cej rest sv
          | Some a \<Rightarrow> variants_vector_loop cej rest (sv @ a))"

definition generate_variants_search_vector_value ::
  "(json \<Rightarrow> string) \<Rightarrow> Product \<Rightarrow> py_exc + SearchVector option" where
  "generate_variants_search_vector_value cej product =
     (if variants product = [] then Inr None
      else and_then
             (variants_vector_loop cej (variants product)
                (map (\<lambda>v. ([sku v, Some (variant_name v)], CHR ''A'')) (variants product)))
             (\<lambda>sv. Inr (Some sv)))"

text \<open>\<open>prepare_product_search_vector_value\<close>; its \<open>print\<close> of the vector is left out.\<close>

definition prepare_product_search_vector_value :: "(json \<Rightarrow> string) \<Rightarrow> Product \<Rightarrow> py_exc + SearchVector" where
  "prepare_product_search_vector_value cej product =
     (let sv = [([Some (product_name product)], CHR ''A'')]
               @ [([Some (description_plaintext product)], CHR ''C'')]
      in and_then (generate_attributes_search_vector_value cej (attributes product)) (\<lambda>av.
         let sv1 = (case av of None \<Rightarrow> sv | Some a \<Rightarrow> sv @ a)
         in and_then (generate_variants_search_vector_value cej product) (\<lambda>vv.
            Inr (case vv of None \<Rightarrow> sv1 | Some v \<Rightarrow> sv1 @ v))))"

subsection \<open>Updating the stored document\<close>

text \<open>The fields of \<open>update_fields=["search_document", "updated_at"]\<close>.\<close>

definition write_search_document :: "Product \<Rightarrow> ProductColumns \<Rightarrow> ProductColumns" where
  "write_search_document product row =
     row\<lparr>search_document := search_document product, updated_at := updated_at product\<rparr>"

text \<open>The two assignments to a product in memory.\<close>

definition assign_search_values :: "(json \<Rightarrow> string) \<Rightarrow> Product \<Rightarrow> py_exc + Product" where
  "assign_search_values cej product =
     and_then (prepare_product_search_document_value cej product) (\<lambda>doc.
     let product1 = product\<lparr>search_document := doc\<rparr>
     in and_then (prepare_product_search_vector_value cej product1) (\<lambda>vec.
        Inr (product1\<lparr>search_vector := Some vec\<rparr>)))"

text \<open>
  \<open>update_product_search_document\<close>: \<open>save\<close> sets \<open>updated_at\<close>, a field that takes the
  time of the save, to \<open>now\<close>.
\<close>

definition update_product_search_document ::
  "(json \<Rightarrow> string) \<Rightarrow> nat \<Rightarrow> Product \<Rightarrow> ProductColumns table
     \<Rightarrow> py_exc + (Product \<times> ProductColumns table)" where
  "update_product_search_document cej now product t =
     and_then (assign_search_values cej product) (\<lambda>product2.
     let product3 = product2\<lparr>updated_at := now\<rparr>
     in and_then (save_update_fields product_pk write_search_document product3 t)
          (\<lambda>t'. Inr (product3, t')))"

text \<open>
  \<open>update_products_search_document\<close>: \<open>products\<close> are the objects the query set gives.
\<close>

definition update_products_search_document ::
  "(json \<Rightarrow> string) \<Rightarrow> Product list \<Rightarrow> ProductColumns table
     \<Rightarrow> py_exc + (Product list \<times> ProductColumns table)" where
  "update_products_search_document cej products t =
     and_then (sequence (map (assign_search_values cej) products)) (\<lambda>products'.
     and_then (bulk_update product_pk write_search_document products' t)
       (\<lambda>t'. Inr (products', t')))"

subsection \<open>What the document is to contain\<close>

text \<open>
  The rendered value of a value of an attribute, in the words of the specification:
  the name for a dropdown or multiselect, the plain text for rich text, the name with the
  unit after it for a numeric attribute, and the ISO string for a date or date-time.
\<close>

definition rendered_value :: "(json \<Rightarrow> string) \<Rightarrow> Attribute \<Rightarrow> AttributeValue \<Rightarrow> string option" where
  "rendered_value cej a v =
     (case input_type a of
        DROPDOWN \<Rightarrow> Some (value_name v)
      | MULTISELECT \<Rightarrow> Some (value_name v)
      | RICH_TEXT \<Rightarrow> Some (cej (rich_text v))
      | NUMERIC \<Rightarrow> Some (value_name v @ (case attribute_unit a of None \<Rightarrow> [] | Some u \<Rightarrow> u))
      | DATE \<Rightarrow> map_option isoformat (date_time v)
      | DATE_TIME \<Rightarrow> map_option isoformat (date_time v)
      | OTHER_INPUT_TYPE x \<Rightarrow> None)"

text \<open>A section is terminated by a newline when it is not empty.\<close>

definition terminated :: "string \<Rightarrow> bool" where
  "terminated s = (s = [] \<or> last s = CHR 0x0A)"

text \<open>Every value of a date or date-time attribute has its \<open>date_time\<close>.\<close>

definition dated :: "AssignedAttribute \<Rightarrow> bool" where
  "dated aa =
     (input_type (attribute aa) \<in> {DATE, DATE_TIME}
        \<longrightarrow> (\<forall>v \<in> set (attribute_values aa). date_time v \<noteq> None))"

definition dates_ok :: "Product \<Rightarrow> bool" where
  "dates_ok p =
     ((\<forall>aa \<in> set (attributes p). dated aa)
      \<and> (\<forall>v \<in> set (variants p). \<forall>aa \<in> set (variant_attributes v). dated aa))"

text \<open>
  The lines one assigned attribute adds to the document, before lowering: its rendered
  values, each on a line, or nothing when it has none.
\<close>

definition attribute_section :: "(json \<Rightarrow> string) \<Rightarrow> AssignedAttribute \<Rightarrow> string" where
  "attribute_section cej aa =
     (let l = List.map_filter (rendered_value cej (attribute aa)) (attribute_values aa)
      in if l \<noteq> [] then join newline l @ newline else [])"

section \<open>Facts about the string functions\<close>

lemma split_not_Nil: "split sep s \<noteq> []"
  by (induction s) (auto split: list.splits)

lemma isdigit_digit_char: "d < 10 \<Longrightarrow> isdigit (digit_char d)"
  by (simp add: isdigit_def digit_char_def)
lemma digit_val_digit_char: "d < 10 \<Longrightarrow> digit_val (digit_char d) = d"
  by (simp add: digit_val_def digit_char_def)
lemma isdigit_str_nat: "c \<in> set (str_nat n) \<Longrightarrow> isdigit c"
proof (induction n rule: str_nat.induct)
  case (1 n)
  show ?case
  proof (cases "n < 10")
    case True
    with "1.prems" show ?thesis by (subst (asm) str_nat.simps) (simp add: isdigit_digit_char)
  next
    case False
    with "1.prems" "1.IH" show ?thesis
      by (subst (asm) str_nat.simps) (auto simp: isdigit_digit_char)
  qed
qed
lemma str_nat_not_Nil: "str_nat n \<noteq> []"
  by (subst str_nat.simps) simp
lemma digits_value_str_nat: "digits_value (str_nat n) = n"
proof (induction n rule: str_nat.induct)
  case (1 n)
  show ?case
  proof (cases "n < 10")
    case True
    then show ?thesis by (subst str_nat.simps) (simp add: digits_value_def digit_val_digit_char)
  next
    case False
    have "digits_value (str_nat n) = 10 * digits_value (str_nat (n div 10)) + digit_val (digit_char (n mod 10))"
      using False by (subst str_nat.simps) (simp add: digits_value_def)
    with False "1.IH" show ?thesis by (simp add: digit_val_digit_char)
  qed
qed
lemma int_body_ok_digits: "s \<noteq> [] \<Longrightarrow> \<forall>c \<in> set s. isdigit c \<Longrightarrow> int_body_ok s"
proof (induction s rule: int_body_ok.induct)
  case (3 c d cs)
  have "d \<noteq> CHR ''_''" using 3(4) by (auto simp: isdigit_def)
  with 3 show ?case by simp
qed simp_all


lemma isdigit_not_special:
  "isdigit c \<Longrightarrow> \<not> int_space c \<and> c \<noteq> CHR ''-'' \<and> c \<noteq> CHR ''+'' \<and> c \<noteq> CHR ''_'' \<and> c \<noteq> CHR '':''"
  by (auto simp: isdigit_def int_space_def)

lemma dropWhile_id: "xs \<noteq> [] \<Longrightarrow> \<not> P (hd xs) \<Longrightarrow> dropWhile P xs = xs"
  by (cases xs) simp_all

lemma strip_id:
  "s \<noteq> [] \<Longrightarrow> \<not> P (hd s) \<Longrightarrow> \<not> P (last s) \<Longrightarrow> rev (dropWhile P (rev (dropWhile P s))) = s"
proof -
  assume a: "s \<noteq> []" "\<not> P (hd s)" "\<not> P (last s)"
  from a have 1: "dropWhile P s = s" by (simp add: dropWhile_id)
  from a have "rev s \<noteq> []" "\<not> P (hd (rev s))" by (simp_all add: hd_rev)
  then have 2: "dropWhile P (rev s) = rev s" by (rule dropWhile_id)
  show ?thesis by (simp add: 1 2)
qed

lemma filter_digits: "\<forall>c \<in> set s. isdigit c \<Longrightarrow> filter (\<lambda>c. c \<noteq> CHR ''_'') s = s"
  by (induction s) (auto dest: isdigit_not_special)

lemma filter_isdigit_str_nat: "filter isdigit (str_nat n) = str_nat n"
  using isdigit_str_nat by (simp add: filter_id_conv)

lemma length_str_nat: "0 < k \<Longrightarrow> n < 10 ^ k \<Longrightarrow> length (str_nat n) \<le> k"
proof (induction n arbitrary: k rule: str_nat.induct)
  case (1 n)
  show ?case
  proof (cases "n < 10")
    case True
    with "1.prems" show ?thesis by (subst str_nat.simps) simp
  next
    case False
    obtain j where k: "k = Suc j" using "1.prems"(1) by (cases k) simp_all
    from False "1.prems"(2) k have j: "0 < j" by (cases j) simp_all
    from "1.prems"(2) k have "n div 10 < 10 ^ j" by (simp add: less_mult_imp_div_less)
    with "1.IH" [OF False j] have "length (str_nat (n div 10)) \<le> j" .
    with False k show ?thesis by (subst str_nat.simps) simp
  qed
qed

lemma py_int_str_nat_gen:
  assumes "s = str_nat n"
  shows "rev (dropWhile int_space (rev (dropWhile int_space s))) = s" "int_body_ok s"
    "filter (\<lambda>c. c \<noteq> CHR ''_'') s = s" "hd s \<noteq> CHR ''-''" "hd s \<noteq> CHR ''+''" "s \<noteq> []"
    "\<not> int_space (last s)"
proof -
  have ne: "s \<noteq> []" using assms str_nat_not_Nil by simp
  have dg: "\<forall>c \<in> set s. isdigit c" using assms isdigit_str_nat by blast
  have h: "isdigit (hd s)" and l: "isdigit (last s)" using ne dg by simp_all
  show "rev (dropWhile int_space (rev (dropWhile int_space s))) = s"
    using ne h l by (simp add: strip_id isdigit_not_special)
  show "int_body_ok s" using ne dg by (rule int_body_ok_digits)
  show "filter (\<lambda>c. c \<noteq> CHR ''_'') s = s" using dg by (rule filter_digits)
  show "hd s \<noteq> CHR ''-''" "hd s \<noteq> CHR ''+''" using h isdigit_not_special by blast+
  show "s \<noteq> []" by (rule ne)
  show "\<not> int_space (last s)" using l isdigit_not_special by blast
qed

text \<open>
  \<open>int\<close> reads back what \<open>str\<close> prints, for an integer within the limit on digits.
\<close>

lemma py_int_str_int:
  assumes "length (str_nat (nat \<bar>i\<bar>)) \<le> int_max_str_digits"
  shows "py_int (str_int i) = Inr i"
proof (cases "i < 0")
  case False
  note f = py_int_str_nat_gen [OF refl, of "nat i"]
  from False assms show ?thesis
    by (simp add: py_int_def str_int_def Let_def f digits_value_str_nat filter_isdigit_str_nat)
next
  case True
  note f = py_int_str_nat_gen [OF refl, of "nat (- i)"]
  have "\<not> int_space (CHR ''-'')" by (simp add: int_space_def)
  then have "rev (dropWhile int_space (rev (dropWhile int_space (CHR ''-'' # str_nat (nat (- i))))))
      = CHR ''-'' # str_nat (nat (- i))"
    using f by (intro strip_id) simp_all
  with True assms show ?thesis
    by (simp add: py_int_def str_int_def Let_def f digits_value_str_nat filter_isdigit_str_nat)
qed

text \<open>An integer of 64 bits has at most 19 digits.\<close>

lemma py_int_str_int_sint: "py_int (str_int (sint (n :: 64 word))) = Inr (sint n)"
proof -
  have "- (2 ^ 63) \<le> sint n" "sint n < 2 ^ 63"
    using sint_ge [of n] sint_lt [of n] by simp_all
  then have "nat \<bar>sint n\<bar> < 10 ^ 19" by simp
  then have "length (str_nat (nat \<bar>sint n\<bar>)) \<le> 19" by (intro length_str_nat) simp_all
  then show ?thesis by (intro py_int_str_int) (simp add: int_max_str_digits_def)
qed

lemma colon_notin_str_int: "CHR '':'' \<notin> set (str_int i)"
  using isdigit_str_nat isdigit_not_special by (auto simp: str_int_def)

lemma str_int_not_Nil: "str_int i \<noteq> []"
  by (simp add: str_int_def str_nat_not_Nil)

lemma split_no_sep: "sep \<notin> set s \<Longrightarrow> split sep s = [s]"
  by (induction s) auto

lemma split_append_sep: "sep \<notin> set a \<Longrightarrow> split sep (a @ sep # b) = a # split sep b"
  by (induction a) auto

lemma length_split: "length (split sep s) = Suc (length (filter (\<lambda>c. c = sep) s))"
  by (induction s) (auto split: list.splits)

lemma split_to_payment_app_id:
  "CHR '':'' \<notin> set g \<Longrightarrow>
   split CHR '':'' (to_payment_app_id \<lparr>App_pk = Some n\<rparr> g) = [''app'', str_int (sint n), g]"
proof -
  assume g: "CHR '':'' \<notin> set g"
  have "split CHR '':'' (''app'' @ CHR '':'' # (str_int (sint n) @ CHR '':'' # g))
      = ''app'' # split CHR '':'' (str_int (sint n) @ CHR '':'' # g)"
    by (rule split_append_sep) simp
  also have "split CHR '':'' (str_int (sint n) @ CHR '':'' # g) = str_int (sint n) # split CHR '':'' g"
    by (rule split_append_sep) (rule colon_notin_str_int)
  also have "split CHR '':'' g = [g]" using g by (rule split_no_sep)
  finally show ?thesis by (simp add: to_payment_app_id_def APP_ID_PREFIX_def format_pk_def)
qed

text \<open>A string with more digits than the limit is refused, whatever else it holds.\<close>

lemma filter_isdigit_dropWhile:
  "filter isdigit (dropWhile int_space s) = filter isdigit s"
proof (induction s)
  case Nil
  show ?case by simp
next
  case (Cons c s)
  have "int_space c \<Longrightarrow> \<not> isdigit c" using isdigit_not_special by blast
  with Cons show ?case by simp
qed

lemma filter_isdigit_sign:
  "t \<noteq> [] \<Longrightarrow> hd t = CHR ''-'' \<or> hd t = CHR ''+'' \<Longrightarrow> filter isdigit (tl t) = filter isdigit t"
  by (cases t) (auto simp: isdigit_def)

lemma py_int_too_many_digits:
  assumes "int_max_str_digits < length (filter isdigit s)"
  shows "py_int s = Inl ValueError"
proof -
  let ?t = "rev (dropWhile int_space (rev (dropWhile int_space s)))"
  have "filter isdigit ?t = filter isdigit s"
    by (simp add: filter_isdigit_dropWhile rev_filter [symmetric] del: rev_rev_ident)
      (simp add: rev_filter filter_isdigit_dropWhile)
  then have "filter isdigit (if ?t \<noteq> [] \<and> (hd ?t = CHR ''-'' \<or> hd ?t = CHR ''+'') then tl ?t else ?t)
      = filter isdigit s"
    using filter_isdigit_sign [of ?t] by auto
  with assms show ?thesis by (simp add: py_int_def Let_def)
qed

lemma from_payment_app_id_too_many_digits:
  "from_payment_app_id (''app:'' @ replicate 4301 CHR ''1'' @ '':x'') = Inr None"
proof -
  have 1: "split CHR '':'' (''app'' @ CHR '':'' # (replicate 4301 CHR ''1'' @ CHR '':'' # ''x''))
      = ''app'' # split CHR '':'' (replicate 4301 CHR ''1'' @ CHR '':'' # ''x'')"
    by (rule split_append_sep) simp
  have 2: "split CHR '':'' (replicate 4301 CHR ''1'' @ CHR '':'' # ''x'')
      = replicate 4301 CHR ''1'' # split CHR '':'' ''x''"
    by (rule split_append_sep) simp
  have s: "split CHR '':'' (''app:'' @ replicate 4301 CHR ''1'' @ '':x'')
      = [''app'', replicate 4301 CHR ''1'', ''x'']"
    using 1 2 by simp
  have "filter isdigit (replicate 4301 CHR ''1'') = replicate 4301 CHR ''1''"
    by (simp add: isdigit_def)
  then have "py_int (replicate 4301 CHR ''1'') = Inl ValueError"
    by (intro py_int_too_many_digits) (simp add: int_max_str_digits_def)
  then show ?thesis
    unfolding from_payment_app_id_def s by (simp add: Let_def)
qed

section \<open>Claims on payment app identifiers\<close>

text \<open>
  C1 (as amended). For an app whose primary key is the integer \<open>n\<close>, a key of the
  database, and a gateway id that is not empty and holds no colon, parsing the identifier
  built by \<open>to_payment_app_id\<close> gives back \<open>PaymentAppData(app_pk=n, name=gateway_id)\<close>.
\<close>

theorem payment_app_id_roundtrip:
  "App_pk app = Some n \<Longrightarrow> g \<noteq> [] \<Longrightarrow> CHR '':'' \<notin> set g \<Longrightarrow>
   from_payment_app_id (to_payment_app_id app g) = Inr (Some \<lparr>app_pk = sint n, name = g\<rparr>)"
proof -
  assume a: "App_pk app = Some n" "g \<noteq> []" "CHR '':'' \<notin> set g"
  from a(1) have app: "app = \<lparr>App_pk = Some n\<rparr>" by (cases app) simp
  show ?thesis
    using a(2) by (simp add: from_payment_app_id_def app split_to_payment_app_id [OF a(3)]
        APP_ID_PREFIX_def py_int_str_int_sint str_int_not_Nil)
qed

text \<open>The example of the specification: primary key 7 and gateway id \<open>stripe\<close>.\<close>

theorem payment_app_id_roundtrip_witness:
  "to_payment_app_id \<lparr>App_pk = Some 7\<rparr> ''stripe'' = ''app:7:stripe'' \<and>
   from_payment_app_id ''app:7:stripe'' = Inr (Some \<lparr>app_pk = 7, name = ''stripe''\<rparr>)"
proof -
  have e: "to_payment_app_id \<lparr>App_pk = Some 7\<rparr> ''stripe'' = ''app:7:stripe''"
    by code_simp
  have "from_payment_app_id (to_payment_app_id \<lparr>App_pk = Some 7\<rparr> ''stripe'')
      = Inr (Some \<lparr>app_pk = sint (7 :: 64 word), name = ''stripe''\<rparr>)"
    by (rule payment_app_id_roundtrip) simp_all
  with e show ?thesis by simp
qed

text \<open>
  C1 as stated, for every gateway id string, fails: a gateway id with a colon gives four
  segments and an empty one gives an empty segment, and both parse to \<open>None\<close>.
\<close>

theorem payment_app_id_roundtrip_counterexample:
  "from_payment_app_id (to_payment_app_id \<lparr>App_pk = Some 7\<rparr> ''eu:stripe'')
     \<noteq> Inr (Some \<lparr>app_pk = 7, name = ''eu:stripe''\<rparr>) \<and>
   from_payment_app_id (to_payment_app_id \<lparr>App_pk = Some 7\<rparr> ''eu:stripe'') = Inr None \<and>
   from_payment_app_id (to_payment_app_id \<lparr>App_pk = Some 7\<rparr> '''') = Inr None"
  by code_simp

text \<open>
  C4. \<open>from_payment_app_id\<close> never raises, and it returns \<open>None\<close> for every string
  that is not a well-formed identifier: a number of colons other than two (so not three
  segments), a first segment other than \<open>app\<close>, an empty segment, or a second segment
  that \<open>int\<close> does not accept: one that is no integer literal, or one of more digits
  than \<open>int\<close> converts.
\<close>

theorem from_payment_app_id_malformed:
  "(\<exists>r. from_payment_app_id s = Inr r) \<and>
   (length (filter (\<lambda>c. c = CHR '':'') s) \<noteq> 2 \<or> hd (split CHR '':'' s) \<noteq> ''app''
      \<or> [] \<in> set (split CHR '':'' s) \<or> (\<forall>n. py_int (split CHR '':'' s ! 1) \<noteq> Inr n)
    \<longrightarrow> from_payment_app_id s = Inr None)"
proof -
  have py: "\<And>t. (\<exists>n. py_int t = Inr n) \<or> py_int t = Inl ValueError"
    by (simp add: py_int_def Let_def)
  have hd0: "hd (split CHR '':'' s) = split CHR '':'' s ! 0"
    using split_not_Nil [of "CHR '':''" s] by (simp add: hd_conv_nth)
  show ?thesis
    using py [of "split CHR '':'' s ! 1"]
    by (auto simp: from_payment_app_id_def Let_def length_split hd0 APP_ID_PREFIX_def split: sum.splits)
qed

theorem from_payment_app_id_malformed_witness:
  "from_payment_app_id ''app:7'' = Inr None \<and> from_payment_app_id ''gw:7:stripe'' = Inr None
   \<and> from_payment_app_id ''app:x7:stripe'' = Inr None \<and> from_payment_app_id ''app::stripe'' = Inr None
   \<and> from_payment_app_id ''app:7:'' = Inr None \<and> from_payment_app_id ''app:7:a:b'' = Inr None
   \<and> from_payment_app_id [CHR ''a'', CHR ''p'', CHR ''p'', CHR '':'', CHR 0x1C, CHR ''7'', CHR '':'', CHR ''x'']
       = Inr None"
proof -
  have 1: "length (filter (\<lambda>c. c = CHR '':'') ''app:7'') \<noteq> 2" by simp
  have 2: "hd (split CHR '':'' ''gw:7:stripe'') \<noteq> ''app''" by simp
  have "py_int (split CHR '':'' ''app:x7:stripe'' ! 1) = Inl ValueError" by code_simp
  then have 3: "\<forall>n. py_int (split CHR '':'' ''app:x7:stripe'' ! 1) \<noteq> Inr n" by simp
  have 4: "[] \<in> set (split CHR '':'' ''app::stripe'')" by simp
  have 5: "[] \<in> set (split CHR '':'' ''app:7:'')" by simp
  have 6: "length (filter (\<lambda>c. c = CHR '':'') ''app:7:a:b'') \<noteq> 2" by simp
  have "py_int (split CHR '':''
      [CHR ''a'', CHR ''p'', CHR ''p'', CHR '':'', CHR 0x1C, CHR ''7'', CHR '':'', CHR ''x''] ! 1)
      = Inl ValueError" by code_simp
  then have 7: "\<forall>n. py_int (split CHR '':''
      [CHR ''a'', CHR ''p'', CHR ''p'', CHR '':'', CHR 0x1C, CHR ''7'', CHR '':'', CHR ''x''] ! 1)
      \<noteq> Inr n" by simp
  show ?thesis
    using from_payment_app_id_malformed [of "''app:7''"] 1
      from_payment_app_id_malformed [of "''gw:7:stripe''"] 2
      from_payment_app_id_malformed [of "''app:x7:stripe''"] 3
      from_payment_app_id_malformed [of "''app::stripe''"] 4
      from_payment_app_id_malformed [of "''app:7:''"] 5
      from_payment_app_id_malformed [of "''app:7:a:b''"] 6
      from_payment_app_id_malformed
        [of "[CHR ''a'', CHR ''p'', CHR ''p'', CHR '':'', CHR 0x1C, CHR ''7'', CHR '':'', CHR ''x'']"] 7
    by blast
qed

section \<open>Facts about the response parsers\<close>








lemma contains_dict: "contains (JDict kvs) key = Inr (map_of kvs key \<noteq> None)"
  by (simp add: map_of_eq_None_iff)

lemma parse_payment_method_info_ok:
  "\<not> truthy v \<or> is_dict v \<Longrightarrow> \<exists>i. parse_payment_method_info v = Inr i"
  by (cases v) (auto simp: parse_payment_method_info_def is_dict_def and_then_def)

lemma Decimal_scalar:
  "(\<exists>s. v = JStr s) \<or> (\<exists>i. v = JInt i) \<or> (\<exists>f. v = JFloat f) \<or> (\<exists>b. v = JBool b) \<Longrightarrow>
   (\<exists>d. Decimal v = Inr d) \<or> Decimal v = Inl InvalidOperation"
  by (auto split: option.splits)

lemma parse_amount_dict:
  assumes "\<forall>v. map_of kvs ''amount'' = Some v \<longrightarrow>
             (\<exists>s. v = JStr s) \<or> (\<exists>i. v = JInt i) \<or> (\<exists>f. v = JFloat f) \<or> (\<exists>b. v = JBool b)"
  shows "parse_amount p (JDict kvs) =
           Inr (case map_of kvs ''amount'' of
                  None \<Rightarrow> payment_amount p
                | Some v \<Rightarrow> (case Decimal v of Inr d \<Rightarrow> d | Inl e \<Rightarrow> payment_amount p))"
proof (cases "map_of kvs ''amount''")
  case None
  then show ?thesis by (simp add: parse_amount_def contains_dict and_then_def del: contains.simps)
next
  case (Some v)
  with assms Decimal_scalar [of v] have "(\<exists>d. Decimal v = Inr d) \<or> Decimal v = Inl InvalidOperation"
    by blast
  with Some show ?thesis
    by (auto simp: parse_amount_def contains_dict and_then_def decimal_at_def is_DecimalException_def
        simp del: contains.simps Decimal.simps)
qed

text \<open>Which exceptions the tax parsers raise.\<close>

lemma and_then_Inl:
  "and_then r f = Inl e \<Longrightarrow> r = Inl e \<or> (\<exists>x. r = Inr x \<and> f x = Inl e)"
  by (cases r) (simp_all add: and_then_def)

lemma subscript_raises: "subscript v key = Inl e \<Longrightarrow> e = KeyError \<or> e = TypeError"
  by (cases v) (auto split: option.splits)

lemma decimal_digits_raises:
  "decimal_digits ds acc = Inl e \<Longrightarrow> e = ValueError \<or> e = OverflowError"
  by (induction ds arbitrary: acc) (auto split: option.splits if_splits)

lemma decimal_coefficient_raises:
  "decimal_coefficient v = Inl e \<Longrightarrow> e = ValueError \<or> e = OverflowError"
  by (cases v) (auto simp: decimal_coefficient_def dest: decimal_digits_raises)

lemma decimal_of_sequence_raises:
  "decimal_of_sequence xs = Inl e \<Longrightarrow>
   e = ValueError \<or> e = OverflowError \<or> e = InvalidOperation"
  unfolding decimal_of_sequence_def
  by (auto split: list.splits option.splits if_splits json.splits
      dest!: and_then_Inl dest: decimal_coefficient_raises)

lemma Decimal_raises:
  "Decimal v = Inl e \<Longrightarrow>
   e = TypeError \<or> e = ValueError \<or> e = OverflowError \<or> e = InvalidOperation"
  by (cases v) (auto split: option.splits dest: decimal_of_sequence_raises)

lemma decimal_at_raises:
  "decimal_at v key = Inl e \<Longrightarrow>
   e = KeyError \<or> e = TypeError \<or> e = ValueError \<or> e = OverflowError \<or> e = InvalidOperation"
  unfolding decimal_at_def by (auto dest!: and_then_Inl dest: subscript_raises Decimal_raises)

lemma iterate_raises: "iterate v = Inl e \<Longrightarrow> e = TypeError"
  by (cases v) auto

lemma sequence_raises: "sequence rs = Inl e \<Longrightarrow> Inl e \<in> set rs"
  by (induction rs) (auto dest!: and_then_Inl)

lemma unsafe_parse_tax_line_data_raises:
  "unsafe_parse_tax_line_data v = Inl e \<Longrightarrow>
   e = KeyError \<or> e = TypeError \<or> e = ValueError \<or> e = OverflowError \<or> e = InvalidOperation"
  unfolding unsafe_parse_tax_line_data_def
  by (auto dest!: and_then_Inl dest: subscript_raises decimal_at_raises)

lemma unsafe_parse_tax_data_raises:
  "unsafe_parse_tax_data v = Inl e \<Longrightarrow>
   e = KeyError \<or> e = TypeError \<or> e = ValueError \<or> e = OverflowError \<or> e = InvalidOperation"
  unfolding unsafe_parse_tax_data_def
  by (auto dest!: and_then_Inl sequence_raises
      dest: subscript_raises decimal_at_raises iterate_raises unsafe_parse_tax_line_data_raises [OF sym])

text \<open>
  The exceptions that leave \<open>parse_tax_data\<close> are \<open>TypeError\<close>, \<open>ValueError\<close> and
  \<open>OverflowError\<close>; an object without \<open>currency\<close>, or with it and without
  \<open>total_net_amount\<close>, gives \<open>None\<close>.
\<close>

lemma parse_tax_data_raises:
  "parse_tax_data v = Inl e \<Longrightarrow> e = TypeError \<or> e = ValueError \<or> e = OverflowError"
  unfolding parse_tax_data_def is_DecimalException_def
  by (auto split: sum.splits if_splits dest: unsafe_parse_tax_data_raises)

lemma parse_tax_data_missing_key:
  "map_of kvs ''currency'' = None \<or>
   (map_of kvs ''currency'' \<noteq> None \<and> map_of kvs ''total_net_amount'' = None) \<Longrightarrow>
   parse_tax_data (JDict kvs) = Inr None"
  by (auto simp: parse_tax_data_def unsafe_parse_tax_data_def decimal_at_def and_then_def)

text \<open>
  An \<open>amount\<close> of \<open>null\<close> is outside the amounts \<open>parse_amount\<close> falls back on:
  \<open>Decimal(None)\<close> raises \<open>TypeError\<close>, which is no \<open>DecimalException\<close>.
\<close>

lemma parse_payment_action_response_null_amount:
  "parse_payment_action_response \<lparr>payment_amount = DecFinite False 10 0, payment_currency = ''USD''\<rparr>
     (JDict [(''amount'', JNull)]) ''capture'' = Inl TypeError"
  by code_simp

text \<open>
  A string whose exponent is beyond the largest one is no decimal: \<open>Decimal\<close> raises
  \<open>InvalidOperation\<close> on it.
\<close>

lemma Decimal_exponent_too_large:
  "Decimal (JStr ''1e1000000000000000000'') = Inl InvalidOperation"
  "Decimal (JStr ''1e999999999999999999'') = Inr (DecFinite False 1 999999999999999999)"
  by (simp_all add: decimal_of_string_def strip_def isspace_def lower_def lower_char_def
      decimal_exponent_def isdigit_def digits_value_def digit_val_def finite_decimal_def
      MAX_EMAX_def MIN_ETINY_def Let_def str_nat.simps)

section \<open>Claims on the response parsers\<close>

text \<open>
  C2 fails on the code. A tax object whose \<open>total_net_amount\<close> is \<open>null\<close> has an amount
  that is no decimal, and \<open>parse_tax_data\<close> raises \<open>TypeError\<close> on it: the handler
  catches \<open>KeyError\<close> and \<open>DecimalException\<close> only. The same object with a string that
  is no number gives \<open>None\<close>.
\<close>

theorem parse_tax_data_null_amount_raises:
  "parse_tax_data (JDict [(''currency'', JStr ''USD''), (''total_net_amount'', JNull),
     (''total_gross_amount'', JStr ''12.30''), (''subtotal_net_amount'', JStr ''10.00''),
     (''subtotal_gross_amount'', JStr ''12.30''), (''shipping_price_gross_amount'', JStr ''0''),
     (''shipping_price_net_amount'', JStr ''0''), (''shipping_tax_rate'', JStr ''0''),
     (''lines'', JList [])]) = Inl TypeError
   \<and> parse_tax_data (JDict [(''currency'', JStr ''USD''), (''total_net_amount'', JStr ''ten''),
     (''total_gross_amount'', JStr ''12.30''), (''subtotal_net_amount'', JStr ''10.00''),
     (''subtotal_gross_amount'', JStr ''12.30''), (''shipping_price_gross_amount'', JStr ''0''),
     (''shipping_price_net_amount'', JStr ''0''), (''shipping_tax_rate'', JStr ''0''),
     (''lines'', JList [])]) = Inr None"
  by code_simp




text \<open>
  C10 (as amended). For a response object whose \<open>payment_method\<close> is absent, falsy or an
  object, and whose \<open>amount\<close>, when present, is a string or a number,
  \<open>parse_payment_action_response\<close> returns a \<open>GatewayResponse\<close>; its \<open>is_success\<close> is
  true exactly when \<open>error\<close> is absent or falsy; its \<open>amount\<close> is \<open>Decimal\<close> of the
  response's amount when the key is present and \<open>Decimal\<close> accepts the value, and the
  payment's amount otherwise.
\<close>

theorem parse_payment_action_response_amount:
  assumes pm: "\<forall>v. map_of kvs ''payment_method'' = Some v \<longrightarrow> \<not> truthy v \<or> is_dict v"
    and am: "\<forall>v. map_of kvs ''amount'' = Some v \<longrightarrow>
               (\<exists>s. v = JStr s) \<or> (\<exists>i. v = JInt i) \<or> (\<exists>f. v = JFloat f) \<or> (\<exists>b. v = JBool b)"
  shows "\<exists>g. parse_payment_action_response p (JDict kvs) transaction_kind = Inr g
           \<and> is_success g = (case map_of kvs ''error'' of None \<Rightarrow> True | Some e \<Rightarrow> \<not> truthy e)
           \<and> amount g = (case map_of kvs ''amount'' of
                            None \<Rightarrow> payment_amount p
                          | Some v \<Rightarrow> (case Decimal v of Inr d \<Rightarrow> d | Inl e \<Rightarrow> payment_amount p))"
proof -
  let ?pm = "case map_of kvs ''payment_method'' of None \<Rightarrow> JNull | Some v \<Rightarrow> v"
  from pm have "\<not> truthy ?pm \<or> is_dict ?pm" by (cases "map_of kvs ''payment_method''") simp_all
  then obtain i where i: "parse_payment_method_info ?pm = Inr i"
    using parse_payment_method_info_ok by blast
  show ?thesis
    by (simp add: parse_payment_action_response_def and_then_def i parse_amount_dict [OF am]
        split: option.splits)
qed

text \<open>
  An amount that is a decimal is taken, and one whose exponent is beyond the largest
  exponent of \<open>Decimal\<close> leaves the payment's amount.
\<close>

theorem parse_payment_action_response_amount_witness:
  "(\<exists>g. parse_payment_action_response \<lparr>payment_amount = DecFinite False 10 0, payment_currency = ''USD''\<rparr>
          (JDict [(''amount'', JStr ''12.50''), (''payment_method'', JDict [(''brand'', JStr ''visa'')])])
          ''capture'' = Inr g
       \<and> is_success g = True \<and> amount g = DecFinite False 1250 (- 2))
   \<and> (\<exists>g. parse_payment_action_response \<lparr>payment_amount = DecFinite False 10 0, payment_currency = ''USD''\<rparr>
          (JDict [(''amount'', JStr ''1e1000000000000000000''), (''error'', JStr ''declined'')])
          ''capture'' = Inr g
       \<and> is_success g = False \<and> amount g = DecFinite False 10 0)"
proof -
  let ?kvs = "[(''amount'', JStr ''12.50''), (''payment_method'', JDict [(''brand'', JStr ''visa'')])]"
  let ?kvs2 = "[(''amount'', JStr ''1e1000000000000000000''), (''error'', JStr ''declined'')]"
  let ?p = "\<lparr>payment_amount = DecFinite False 10 0, payment_currency = ''USD''\<rparr>"
  have pm: "\<forall>v. map_of ?kvs ''payment_method'' = Some v \<longrightarrow> \<not> truthy v \<or> is_dict v"
    by (simp add: is_dict_def)
  have am: "\<forall>v. map_of ?kvs ''amount'' = Some v \<longrightarrow>
               (\<exists>s. v = JStr s) \<or> (\<exists>i. v = JInt i) \<or> (\<exists>f. v = JFloat f) \<or> (\<exists>b. v = JBool b)"
    by simp
  have pm2: "\<forall>v. map_of ?kvs2 ''payment_method'' = Some v \<longrightarrow> \<not> truthy v \<or> is_dict v"
    by simp
  have am2: "\<forall>v. map_of ?kvs2 ''amount'' = Some v \<longrightarrow>
               (\<exists>s. v = JStr s) \<or> (\<exists>i. v = JInt i) \<or> (\<exists>f. v = JFloat f) \<or> (\<exists>b. v = JBool b)"
    by simp
  have d: "Decimal (JStr ''12.50'') = Inr (DecFinite False 1250 (- 2))" by code_simp
  have t: "truthy (JStr ''declined'')" by simp
  have 1: "\<exists>g. parse_payment_action_response ?p (JDict ?kvs) ''capture'' = Inr g
       \<and> is_success g = True \<and> amount g = DecFinite False 1250 (- 2)"
    using parse_payment_action_response_amount [OF pm am, of ?p "''capture''"]
    by (simp add: d del: Decimal.simps)
  have 2: "\<exists>g. parse_payment_action_response ?p (JDict ?kvs2) ''capture'' = Inr g
       \<and> is_success g = False \<and> amount g = DecFinite False 10 0"
    using parse_payment_action_response_amount [OF pm2 am2, of ?p "''capture''"]
    by (simp add: Decimal_exponent_too_large(1) t del: Decimal.simps truthy.simps)
  from 1 2 show ?thesis by blast
qed

text \<open>
  C10 as stated, for every response object, fails: a \<open>payment_method\<close> that is a
  string is truthy and has no \<open>get\<close>, so the parser raises \<open>AttributeError\<close> and
  returns no \<open>GatewayResponse\<close>.
\<close>

theorem parse_payment_action_response_counterexample:
  "parse_payment_action_response \<lparr>payment_amount = DecFinite False 10 0, payment_currency = ''USD''\<rparr>
     (JDict [(''payment_method'', JStr ''card'')]) ''capture'' = Inl AttributeError"
  by code_simp

section \<open>Facts about the database\<close>

lemma bulk_create_deliveries:
  "\<forall>k \<ge> next_pk t. rows t k = None \<Longrightarrow>
   \<exists>ds t'. bulk_create (\<lambda>k d. d\<lparr>delivery_pk := Some k\<rparr>)
       (map (\<lambda>w. \<lparr>delivery_pk = None, delivery_status = PENDING, event_type = etype,
                   payload = p, webhook = w, delivery_created_at = now\<rparr>) ws) t = Inr (ds, t')
     \<and> ds = map (\<lambda>(k, w). \<lparr>delivery_pk = Some k, delivery_status = PENDING,
                            event_type = etype, payload = p, webhook = w,
                            delivery_created_at = now\<rparr>)
                 (zip [next_pk t ..< next_pk t + length ws] ws)
     \<and> next_pk t' = next_pk t + length ws
     \<and> (\<forall>i < length ws. rows t' (next_pk t + i) = Some (ds ! i))
     \<and> (\<forall>k. k < next_pk t \<or> next_pk t + length ws \<le> k \<longrightarrow> rows t' k = rows t k)"
proof (induction ws arbitrary: t)
  case Nil
  show ?case by simp
next
  case (Cons w ws)
  let ?o = "\<lparr>delivery_pk = Some (next_pk t), delivery_status = PENDING, event_type = etype,
             payload = p, webhook = w, delivery_created_at = now\<rparr>"
  let ?t1 = "\<lparr>rows = (rows t)(next_pk t \<mapsto> ?o), next_pk = Suc (next_pk t)\<rparr>"
  from Cons.prems have free: "rows t (next_pk t) = None" by simp
  have ins: "insert_row (\<lambda>k d. d\<lparr>delivery_pk := Some k\<rparr>)
      \<lparr>delivery_pk = None, delivery_status = PENDING, event_type = etype,
       payload = p, webhook = w, delivery_created_at = now\<rparr> t = Inr (?o, ?t1)"
    using free by (simp add: insert_row_def Let_def)
  from Cons.prems have "\<forall>k \<ge> next_pk ?t1. rows ?t1 k = None" by simp
  from Cons.IH [OF this] obtain ds t' where
    bc: "bulk_create (\<lambda>k d. d\<lparr>delivery_pk := Some k\<rparr>)
       (map (\<lambda>w. \<lparr>delivery_pk = None, delivery_status = PENDING, event_type = etype,
                   payload = p, webhook = w, delivery_created_at = now\<rparr>) ws) ?t1 = Inr (ds, t')"
    and ds: "ds = map (\<lambda>(k, w). \<lparr>delivery_pk = Some k, delivery_status = PENDING,
                            event_type = etype, payload = p, webhook = w,
                            delivery_created_at = now\<rparr>)
                 (zip [next_pk ?t1 ..< next_pk ?t1 + length ws] ws)"
    and nx: "next_pk t' = next_pk ?t1 + length ws"
    and new: "\<forall>i < length ws. rows t' (next_pk ?t1 + i) = Some (ds ! i)"
    and old: "\<forall>k. k < next_pk ?t1 \<or> next_pk ?t1 + length ws \<le> k \<longrightarrow> rows t' k = rows ?t1 k"
    by blast
  have res: "bulk_create (\<lambda>k d. d\<lparr>delivery_pk := Some k\<rparr>)
       (map (\<lambda>w. \<lparr>delivery_pk = None, delivery_status = PENDING, event_type = etype,
                   payload = p, webhook = w, delivery_created_at = now\<rparr>) (w # ws)) t = Inr (?o # ds, t')"
    by (simp add: ins bc and_then_def)
  have ds': "?o # ds = map (\<lambda>(k, w). \<lparr>delivery_pk = Some k, delivery_status = PENDING,
                            event_type = etype, payload = p, webhook = w,
                            delivery_created_at = now\<rparr>)
                 (zip [next_pk t ..< next_pk t + length (w # ws)] (w # ws))"
  proof -
    have "[next_pk t ..< next_pk t + length (w # ws)]
            = next_pk t # [Suc (next_pk t) ..< Suc (next_pk t) + length ws]"
      by (simp add: upt_conv_Cons del: upt_Suc)
    then show ?thesis by (simp add: ds del: upt_Suc)
  qed
  have new': "\<forall>i < length (w # ws). rows t' (next_pk t + i) = Some ((?o # ds) ! i)"
  proof (intro allI impI)
    fix i assume i: "i < length (w # ws)"
    show "rows t' (next_pk t + i) = Some ((?o # ds) ! i)"
    proof (cases i)
      case 0
      with old show ?thesis by simp
    next
      case (Suc j)
      with i new show ?thesis by simp
    qed
  qed
  have old': "\<forall>k. k < next_pk t \<or> next_pk t + length (w # ws) \<le> k \<longrightarrow> rows t' k = rows t k"
    using old by auto
  from res ds' nx new' old' show ?case by (intro exI conjI) (assumption | simp)+
qed

section \<open>Claims on event deliveries\<close>

text \<open>
  C3. \<open>clear_successful_delivery\<close> leaves the table as it is when the delivery's status
  is not SUCCESS (so for PENDING and FAILED). For a saved delivery, the row under its key
  is gone afterwards exactly when the status is SUCCESS (or no such row was stored), and
  every other row stays.
\<close>

theorem clear_successful_delivery_iff:
  "(delivery_status d \<noteq> SUCCESS \<longrightarrow> clear_successful_delivery d t = Inr t)
   \<and> (delivery_pk d = Some k \<longrightarrow>
        (\<exists>t'. clear_successful_delivery d t = Inr t'
           \<and> (rows t' k = None \<longleftrightarrow> delivery_status d = SUCCESS \<or> rows t k = None)
           \<and> (\<forall>j. j \<noteq> k \<longrightarrow> rows t' j = rows t j)
           \<and> next_pk t' = next_pk t))"
  by (simp add: clear_successful_delivery_def delete_def)

theorem clear_successful_delivery_iff_witness:
  "clear_successful_delivery
     \<lparr>delivery_pk = Some 1, delivery_status = FAILED, event_type = ''order_created'',
      payload = (7::nat), webhook = (3::nat), delivery_created_at = 5\<rparr>
     \<lparr>rows = [1 \<mapsto> \<lparr>delivery_pk = Some 1, delivery_status = FAILED, event_type = ''order_created'',
                      payload = 7, webhook = 3, delivery_created_at = 5\<rparr>], next_pk = 2\<rparr>
   = Inr \<lparr>rows = [1 \<mapsto> \<lparr>delivery_pk = Some 1, delivery_status = FAILED, event_type = ''order_created'',
                      payload = 7, webhook = 3, delivery_created_at = 5\<rparr>], next_pk = 2\<rparr>
   \<and> (\<exists>t'. clear_successful_delivery
     \<lparr>delivery_pk = Some 1, delivery_status = SUCCESS, event_type = ''order_created'',
      payload = (7::nat), webhook = (3::nat), delivery_created_at = 5\<rparr>
     \<lparr>rows = [1 \<mapsto> \<lparr>delivery_pk = Some 1, delivery_status = SUCCESS, event_type = ''order_created'',
                      payload = 7, webhook = 3, delivery_created_at = 5\<rparr>], next_pk = 2\<rparr>
      = Inr t' \<and> rows t' 1 = None)"
proof -
  let ?d = "\<lambda>s. \<lparr>delivery_pk = Some 1, delivery_status = s, event_type = ''order_created'',
      payload = (7::nat), webhook = (3::nat), delivery_created_at = 5\<rparr>"
  let ?t = "\<lambda>s. \<lparr>rows = [1 \<mapsto> ?d s], next_pk = 2\<rparr>"
  show ?thesis
    using clear_successful_delivery_iff [of "?d FAILED" "?t FAILED" 1]
      clear_successful_delivery_iff [of "?d SUCCESS" "?t SUCCESS" 1]
    by auto
qed

text \<open>
  C6. For a stored attempt, \<open>attempt_update\<close> changes its row in the five fields
  \<open>duration\<close>, \<open>response\<close>, \<open>response_headers\<close>, \<open>request_headers\<close> and \<open>status\<close>,
  the headers as JSON text, and in nothing else: the other fields keep what the row held,
  and the other rows stay. For a stored delivery, \<open>delivery_update\<close> changes the row in
  \<open>status\<close> only.
\<close>

theorem update_writes_only_update_fields:
  "(attempt_pk a = Some k \<and> rows t k = Some row \<longrightarrow>
      (\<exists>a' t'. attempt_update a r t = Inr (a', t')
         \<and> rows t' k = Some (row\<lparr>duration := Some (webhook_duration r),
                                   response := Some (content r),
                                   response_headers := Some (json_dumps (webhook_response_headers r)),
                                   request_headers := Some (json_dumps (webhook_request_headers r)),
                                   attempt_status := webhook_status r\<rparr>)
         \<and> (\<forall>j. j \<noteq> k \<longrightarrow> rows t' j = rows t j) \<and> next_pk t' = next_pk t))
   \<and> (delivery_pk d = Some i \<and> rows u i = Some drow \<longrightarrow>
      (\<exists>d' u'. delivery_update d status u = Inr (d', u')
         \<and> rows u' i = Some (drow\<lparr>delivery_status := status\<rparr>)
         \<and> (\<forall>j. j \<noteq> i \<longrightarrow> rows u' j = rows u j) \<and> next_pk u' = next_pk u))"
  by (simp add: attempt_update_def delivery_update_def save_update_fields_def and_then_def Let_def)

theorem update_writes_only_update_fields_witness:
  "(\<exists>a' t'. attempt_update
       \<lparr>attempt_pk = Some 4, delivery = Some 1, task_id = Some ''t-1'', duration = None,
        response = None, request_headers = None, response_headers = None,
        attempt_status = PENDING, attempt_created_at = 5\<rparr>
       \<lparr>content = ''ok'', webhook_request_headers = JDict [(''X-Id'', JStr ''1'')],
        webhook_response_headers = JNull, webhook_status = SUCCESS,
        webhook_duration = PyFloat ''0.25''\<rparr>
       \<lparr>rows = [4 \<mapsto> \<lparr>attempt_pk = Some 4, delivery = Some 1, task_id = Some ''t-0'', duration = None,
                       response = None, request_headers = None, response_headers = None,
                       attempt_status = PENDING, attempt_created_at = 3\<rparr>], next_pk = 5\<rparr>
       = Inr (a', t')
     \<and> rows t' 4 = Some \<lparr>attempt_pk = Some 4, delivery = Some 1, task_id = Some ''t-0'',
                          duration = Some (PyFloat ''0.25''), response = Some ''ok'',
                          request_headers = Some (json_dumps (JDict [(''X-Id'', JStr ''1'')])),
                          response_headers = Some ''null'',
                          attempt_status = SUCCESS, attempt_created_at = 3\<rparr>)
   \<and> (\<exists>d' u'. delivery_update
       \<lparr>delivery_pk = Some 1, delivery_status = PENDING, event_type = ''order_created'',
        payload = (7::nat), webhook = (3::nat), delivery_created_at = 9\<rparr>
       FAILED
       \<lparr>rows = [1 \<mapsto> \<lparr>delivery_pk = Some 1, delivery_status = PENDING, event_type = ''order_updated'',
                       payload = 7, webhook = 3, delivery_created_at = 5\<rparr>], next_pk = 2\<rparr>
       = Inr (d', u')
     \<and> rows u' 1 = Some \<lparr>delivery_pk = Some 1, delivery_status = FAILED, event_type = ''order_updated'',
                          payload = 7, webhook = 3, delivery_created_at = 5\<rparr>)"
proof -
  let ?a = "\<lparr>attempt_pk = Some 4, delivery = Some 1, task_id = Some ''t-1'', duration = None,
        response = None, request_headers = None, response_headers = None,
        attempt_status = PENDING, attempt_created_at = 5\<rparr>"
  let ?r = "\<lparr>content = ''ok'', webhook_request_headers = JDict [(''X-Id'', JStr ''1'')],
        webhook_response_headers = JNull, webhook_status = SUCCESS,
        webhook_duration = PyFloat ''0.25''\<rparr>"
  let ?row = "\<lparr>attempt_pk = Some 4, delivery = Some 1, task_id = Some ''t-0'', duration = None,
                       response = None, request_headers = None, response_headers = None,
                       attempt_status = PENDING, attempt_created_at = 3\<rparr>"
  let ?t = "\<lparr>rows = [4 \<mapsto> ?row], next_pk = 5\<rparr>"
  let ?d = "\<lparr>delivery_pk = Some 1, delivery_status = PENDING, event_type = ''order_created'',
        payload = (7::nat), webhook = (3::nat), delivery_created_at = 9\<rparr>"
  let ?drow = "\<lparr>delivery_pk = Some 1, delivery_status = PENDING, event_type = ''order_updated'',
                       payload = (7::nat), webhook = (3::nat), delivery_created_at = 5\<rparr>"
  let ?u = "\<lparr>rows = [1 \<mapsto> ?drow], next_pk = 2\<rparr>"
  show ?thesis
    using update_writes_only_update_fields [of ?a 4 ?t ?row ?r ?d 1 ?u ?drow FAILED]
    by (simp del: json_dumps.simps(7)) blast
qed

text \<open>
  C7. When the sequence of the table is ahead of every stored key,
  \<open>create_event_delivery_list_for_webhooks\<close> returns one delivery per webhook, in order,
  each with status PENDING, the given event type, the given payload and that webhook; each
  is stored under a new key, and no other row changes.
\<close>

theorem create_event_delivery_list:
  assumes fresh: "\<forall>k \<ge> next_pk t. rows t k = None"
  shows "\<exists>ds t'. create_event_delivery_list_for_webhooks now webhooks event_payload etype t = Inr (ds, t')
     \<and> length ds = length webhooks
     \<and> (\<forall>i < length webhooks.
           ds ! i = \<lparr>delivery_pk = Some (next_pk t + i), delivery_status = PENDING,
                     event_type = etype, payload = event_payload, webhook = webhooks ! i,
                     delivery_created_at = now\<rparr>
           \<and> rows t' (next_pk t + i) = Some (ds ! i))
     \<and> (\<forall>k. k < next_pk t \<or> next_pk t + length webhooks \<le> k \<longrightarrow> rows t' k = rows t k)"
proof -
  from bulk_create_deliveries [OF fresh, of etype event_payload now webhooks]
  obtain ds t' where
    bc: "create_event_delivery_list_for_webhooks now webhooks event_payload etype t = Inr (ds, t')"
    and ds: "ds = map (\<lambda>(k, w). \<lparr>delivery_pk = Some k, delivery_status = PENDING,
                            event_type = etype, payload = event_payload, webhook = w,
                            delivery_created_at = now\<rparr>)
                 (zip [next_pk t ..< next_pk t + length webhooks] webhooks)"
    and new: "\<forall>i < length webhooks. rows t' (next_pk t + i) = Some (ds ! i)"
    and old: "\<forall>k. k < next_pk t \<or> next_pk t + length webhooks \<le> k \<longrightarrow> rows t' k = rows t k"
    unfolding create_event_delivery_list_for_webhooks_def by blast
  have len: "length ds = length webhooks" by (simp add: ds)
  have nth: "\<forall>i < length webhooks.
           ds ! i = \<lparr>delivery_pk = Some (next_pk t + i), delivery_status = PENDING,
                     event_type = etype, payload = event_payload, webhook = webhooks ! i,
                     delivery_created_at = now\<rparr>"
    by (simp add: ds)
  from bc len nth new old show ?thesis by blast
qed

theorem create_event_delivery_list_witness:
  "\<exists>ds t'. create_event_delivery_list_for_webhooks 5 [10, 20 :: nat] (7 :: nat) ''order_created''
              \<lparr>rows = Map.empty, next_pk = 1\<rparr> = Inr (ds, t')
     \<and> ds = [\<lparr>delivery_pk = Some 1, delivery_status = PENDING, event_type = ''order_created'',
               payload = 7, webhook = 10, delivery_created_at = 5\<rparr>,
              \<lparr>delivery_pk = Some 2, delivery_status = PENDING, event_type = ''order_created'',
               payload = 7, webhook = 20, delivery_created_at = 5\<rparr>]
     \<and> rows t' 1 = Some (ds ! 0) \<and> rows t' 2 = Some (ds ! 1) \<and> rows t' 3 = None"
proof -
  let ?t = "\<lparr>rows = Map.empty, next_pk = 1\<rparr> :: (nat, nat) EventDelivery table"
  have fresh: "\<forall>k \<ge> next_pk ?t. rows ?t k = None" by simp
  from create_event_delivery_list [OF fresh, of 5 "[10, 20]" 7 "''order_created''"]
  obtain ds t' where
    r: "create_event_delivery_list_for_webhooks 5 [10, 20 :: nat] (7 :: nat) ''order_created'' ?t = Inr (ds, t')"
    and len: "length ds = 2"
    and nth: "\<forall>i < 2. ds ! i = \<lparr>delivery_pk = Some (1 + i), delivery_status = PENDING,
                     event_type = ''order_created'', payload = 7, webhook = [10, 20] ! i,
                     delivery_created_at = 5\<rparr> \<and> rows t' (1 + i) = Some (ds ! i)"
    and old: "\<forall>k. k < 1 \<or> 3 \<le> k \<longrightarrow> rows t' k = None"
    by auto
  have n0: "ds ! 0 = \<lparr>delivery_pk = Some 1, delivery_status = PENDING,
                     event_type = ''order_created'', payload = 7, webhook = 10,
                     delivery_created_at = 5\<rparr> \<and> rows t' 1 = Some (ds ! 0)"
    using nth [rule_format, of 0] by simp
  have n1: "ds ! 1 = \<lparr>delivery_pk = Some 2, delivery_status = PENDING,
                     event_type = ''order_created'', payload = 7, webhook = 20,
                     delivery_created_at = 5\<rparr> \<and> rows t' 2 = Some (ds ! 1)"
    using nth [rule_format, of 1] by (simp add: numeral_2_eq_2)
  from len obtain a b where ab: "ds = [a, b]"
    by (cases ds; cases "tl ds") auto
  from old have o3: "rows t' 3 = None" by simp
  from r ab n0 n1 o3 show ?thesis by auto
qed

section \<open>Facts about the search document and the search vector\<close>

lemma sequence_map_Inr: "\<forall>x \<in> set xs. f x = Inr (g x) \<Longrightarrow> sequence (map f xs) = Inr (map g xs)"
  by (induction xs) (simp_all add: and_then_def)

lemma map_filter_Some: "\<forall>x \<in> set xs. f x = Some (g x) \<Longrightarrow> List.map_filter f xs = map g xs"
  by (induction xs) (simp_all add: List.map_filter_simps)

lemma map_filter_None: "\<forall>x \<in> set xs. f x = None \<Longrightarrow> List.map_filter f xs = []"
  by (induction xs) (simp_all add: List.map_filter_simps)

lemma document_values_list_dated:
  assumes "dated aa"
  shows "document_values_list cej aa
           = Inr (List.map_filter (rendered_value cej (attribute aa)) (attribute_values aa))"
proof (cases "input_type (attribute aa)")
  case DROPDOWN
  then show ?thesis
    by (simp add: document_values_list_def rendered_value_def map_filter_Some [where g = value_name])
next
  case MULTISELECT
  then show ?thesis
    by (simp add: document_values_list_def rendered_value_def map_filter_Some [where g = value_name])
next
  case RICH_TEXT
  then show ?thesis
    by (simp add: document_values_list_def rendered_value_def
        map_filter_Some [where g = "\<lambda>v. cej (rich_text v)"])
next
  case NUMERIC
  then show ?thesis
    by (simp add: document_values_list_def rendered_value_def
        map_filter_Some [where g = "\<lambda>v. value_name v @ (case attribute_unit (attribute aa) of None \<Rightarrow> [] | Some u \<Rightarrow> u)"])
next
  case DATE
  with assms have d: "\<forall>v \<in> set (attribute_values aa). date_time v \<noteq> None"
    by (simp add: dated_def)
  then have 1: "\<forall>v \<in> set (attribute_values aa). date_text isoformat v = Inr (isoformat (the (date_time v)))"
    by (auto simp: date_text_def)
  from d have 2: "\<forall>v \<in> set (attribute_values aa).
      rendered_value cej (attribute aa) v = Some (isoformat (the (date_time v)))"
    using DATE by (auto simp: rendered_value_def)
  show ?thesis
    using DATE by (simp add: document_values_list_def sequence_map_Inr [OF 1] map_filter_Some [OF 2])
next
  case DATE_TIME
  with assms have d: "\<forall>v \<in> set (attribute_values aa). date_time v \<noteq> None"
    by (simp add: dated_def)
  then have 1: "\<forall>v \<in> set (attribute_values aa). date_text isoformat v = Inr (isoformat (the (date_time v)))"
    by (auto simp: date_text_def)
  from d have 2: "\<forall>v \<in> set (attribute_values aa).
      rendered_value cej (attribute aa) v = Some (isoformat (the (date_time v)))"
    using DATE_TIME by (auto simp: rendered_value_def)
  show ?thesis
    using DATE_TIME by (simp add: document_values_list_def sequence_map_Inr [OF 1] map_filter_Some [OF 2])
next
  case (OTHER_INPUT_TYPE x)
  then show ?thesis
    by (simp add: document_values_list_def rendered_value_def map_filter_None)
qed

lemma attributes_document_loop_dated:
  "\<forall>aa \<in> set as. dated aa \<Longrightarrow>
   attributes_document_loop cej as acc = Inr (acc @ concat (map (attribute_section cej) as))"
proof (induction as arbitrary: acc)
  case Nil
  show ?case by simp
next
  case (Cons aa as)
  from Cons.prems have aa: "dated aa" and as: "\<forall>aa \<in> set as. dated aa" by simp_all
  show ?case
    by (simp add: document_values_list_dated [OF aa] and_then_def Cons.IH [OF as]
        attribute_section_def Let_def)
qed

lemma generate_attributes_document_dated:
  "\<forall>aa \<in> set as. dated aa \<Longrightarrow>
   generate_attributes_search_document_value cej as
     = Inr (lower (concat (map (attribute_section cej) as)))"
  by (simp add: generate_attributes_search_document_value_def attributes_document_loop_dated
      and_then_def)

lemma variants_document_loop_dated:
  "\<forall>v \<in> set vs. \<forall>aa \<in> set (variant_attributes v). dated aa \<Longrightarrow>
   variants_document_loop cej vs acc
     = Inr (acc @ concat (map (\<lambda>v. lower (concat (map (attribute_section cej) (variant_attributes v)))) vs))"
proof (induction vs arbitrary: acc)
  case Nil
  show ?case by simp
next
  case (Cons v vs)
  from Cons.prems have v: "\<forall>aa \<in> set (variant_attributes v). dated aa"
    and vs: "\<forall>v \<in> set vs. \<forall>aa \<in> set (variant_attributes v). dated aa" by simp_all
  show ?case
    by (simp add: generate_attributes_document_dated [OF v] and_then_def Cons.IH [OF vs])
qed

lemma lower_append: "lower (a @ b) = lower a @ lower b"
  by (simp add: lower_def)

lemma lower_concat: "lower (concat xs) = concat (map lower xs)"
  by (induction xs) (simp_all add: lower_append, simp add: lower_def)

lemma lower_char_idem: "lower_char (lower_char c) = lower_char c"
proof -
  have "(of_char c :: nat) < 256" by simp
  then show ?thesis
    by (auto simp: lower_char_def Let_def)
qed

lemma lower_idem: "lower (lower s) = lower s"
  by (simp add: lower_def lower_char_idem)

lemma prepare_document_dated:
  assumes "dates_ok p"
  shows "prepare_product_search_document_value cej p =
    Inr (generate_product_fields_search_document_value p
         @ lower (concat (map (attribute_section cej) (attributes p)))
         @ lower (variant_skus_data p)
         @ concat (map (\<lambda>v. lower (concat (map (attribute_section cej) (variant_attributes v)))) (variants p)))"
proof -
  from assms have a: "\<forall>aa \<in> set (attributes p). dated aa"
    and v: "\<forall>v \<in> set (variants p). \<forall>aa \<in> set (variant_attributes v). dated aa"
    by (simp_all add: dates_ok_def)
  have f: "lower (generate_product_fields_search_document_value p)
             = generate_product_fields_search_document_value p"
    by (simp add: generate_product_fields_search_document_value_def Let_def lower_idem)
  show ?thesis
    by (simp add: prepare_product_search_document_value_def Let_def and_then_def
        generate_attributes_document_dated [OF a] generate_variants_search_document_value_def
        variants_document_loop_dated [OF v] lower_append lower_idem f lower_concat comp_def)
qed

lemma lower_newline: "lower newline = newline"
  by (simp add: lower_def newline_def lower_char_def)

lemma terminated_iff: "terminated s \<longleftrightarrow> s = [] \<or> (\<exists>t. s = t @ newline)"
  by (cases s rule: rev_cases) (auto simp: terminated_def newline_def)

lemma terminated_append: "terminated a \<Longrightarrow> terminated b \<Longrightarrow> terminated (a @ b)"
proof -
  assume a: "terminated a" and b: "terminated b"
  show ?thesis
  proof (cases "b = []")
    case True
    with a show ?thesis by simp
  next
    case False
    with b obtain t where "b = t @ newline" by (auto simp: terminated_iff)
    then have "a @ b = (a @ t) @ newline" by simp
    then show ?thesis unfolding terminated_iff by blast
  qed
qed

lemma terminated_concat: "\<forall>s \<in> set xs. terminated s \<Longrightarrow> terminated (concat xs)"
  by (induction xs) (simp_all add: terminated_append, simp add: terminated_def)

lemma terminated_lower: "terminated s \<Longrightarrow> terminated (lower s)"
  by (auto simp: terminated_iff lower_append lower_newline, simp add: lower_def)

lemma terminated_snoc_newline: "terminated (s @ newline)"
  unfolding terminated_iff by blast

lemma terminated_Nil: "terminated []"
  by (simp add: terminated_def)

lemma terminated_fields: "terminated (generate_product_fields_search_document_value p)"
  by (simp add: generate_product_fields_search_document_value_def Let_def
      terminated_lower terminated_snoc_newline terminated_Nil)

lemma terminated_skus: "terminated (lower (variant_skus_data p))"
  by (simp add: variant_skus_data_def Let_def terminated_lower terminated_snoc_newline
      terminated_Nil)

lemma terminated_attribute_section: "terminated (attribute_section cej aa)"
  by (simp add: attribute_section_def Let_def terminated_snoc_newline terminated_Nil)

lemma terminated_sections: "terminated (lower (concat (map (attribute_section cej) as)))"
  by (intro terminated_lower terminated_concat) (simp add: terminated_attribute_section)

lemma sublist_join: "x \<in> set l \<Longrightarrow> sublist x (join sep l)"
proof (induction sep l rule: join.induct)
  case (3 sep a b bs)
  then show ?case
  proof (cases "x = a")
    case True
    then show ?thesis by simp
  next
    case False
    with 3 have "sublist x (join sep (b # bs))" by simp
    then obtain ps ss where "join sep (b # bs) = ps @ x @ ss" by (auto simp: sublist_def)
    then have "join sep (a # b # bs) = (a @ sep @ ps) @ x @ ss" by simp
    then show ?thesis unfolding sublist_def by blast
  qed
qed simp_all

lemma sublist_concat: "x \<in> set xs \<Longrightarrow> sublist x (concat xs)"
proof -
  assume "x \<in> set xs"
  then obtain a b where "xs = a @ x # b" by (auto dest: split_list)
  then have "concat xs = concat a @ x @ concat b" by simp
  then show ?thesis unfolding sublist_def by blast
qed

lemma sublist_trans: "sublist a b \<Longrightarrow> sublist b c \<Longrightarrow> sublist a c"
  by (rule sublist_order.order.trans)

lemma sublist_lower: "sublist a b \<Longrightarrow> sublist (lower a) (lower b)"
  unfolding lower_def by (rule map_mono_sublist)

lemma rendered_in_section:
  assumes "v \<in> set (attribute_values aa)" and "rendered_value cej (attribute aa) v = Some r"
  shows "sublist r (attribute_section cej aa)"
proof -
  let ?l = "List.map_filter (rendered_value cej (attribute aa)) (attribute_values aa)"
  from assms have r: "r \<in> set ?l" by (force simp: List.map_filter_def)
  then have "?l \<noteq> []" by auto
  then have s: "attribute_section cej aa = join newline ?l @ newline"
    by (simp add: attribute_section_def Let_def)
  from r have "sublist r (join newline ?l)" by (rule sublist_join)
  then show ?thesis unfolding s sublist_def by (metis append_assoc)
qed

lemma rendered_in_sections:
  assumes "aa \<in> set as" and "v \<in> set (attribute_values aa)"
    and "rendered_value cej (attribute aa) v = Some r"
  shows "sublist (lower r) (lower (concat (map (attribute_section cej) as)))"
proof -
  have "sublist r (attribute_section cej aa)" using assms(2,3) by (rule rendered_in_section)
  moreover have "sublist (attribute_section cej aa) (concat (map (attribute_section cej) as))"
    using assms(1) by (intro sublist_concat) simp
  ultimately have "sublist r (concat (map (attribute_section cej) as))" by (rule sublist_trans)
  then show ?thesis by (rule sublist_lower)
qed

lemma lower_lower_concat:
  "lower (concat (map (\<lambda>v. lower (f v)) vs)) = concat (map (\<lambda>v. lower (f v)) vs)"
  by (induction vs) (simp_all add: lower_append lower_idem, simp add: lower_def)

lemma vector_values_list_dated:
  assumes "dated aa"
  shows "\<exists>l. vector_values_list cej aa = Inr l"
proof (cases "input_type (attribute aa) \<in> {DATE, DATE_TIME}")
  case True
  with assms have "\<forall>v \<in> set (attribute_values aa). date_time v \<noteq> None"
    unfolding dated_def by blast
  then have "\<forall>v \<in> set (attribute_values aa). date_text strftime v = Inr (strftime (the (date_time v)))"
    by (auto simp: date_text_def)
  from sequence_map_Inr [OF this] True show ?thesis
    by (auto simp: vector_values_list_def)
next
  case False
  then show ?thesis by (simp add: vector_values_list_def Let_def)
qed

lemma attributes_vector_loop_dated:
  "\<forall>aa \<in> set as. dated aa \<Longrightarrow> \<exists>r. attributes_vector_loop cej as sv = Inr r"
proof (induction as arbitrary: sv)
  case Nil
  show ?case by simp
next
  case (Cons aa as)
  from Cons.prems have "dated aa" and as: "\<forall>aa \<in> set as. dated aa" by simp_all
  then obtain l where l: "vector_values_list cej aa = Inr l"
    using vector_values_list_dated by blast
  show ?case
    using Cons.IH [OF as] by (simp add: l and_then_def Let_def)
qed

lemma variants_vector_loop_dated:
  "\<forall>v \<in> set vs. \<forall>aa \<in> set (variant_attributes v). dated aa \<Longrightarrow>
   \<exists>r. variants_vector_loop cej vs sv = Inr r"
proof (induction vs arbitrary: sv)
  case Nil
  show ?case by simp
next
  case (Cons v vs)
  from Cons.prems have "\<forall>aa \<in> set (variant_attributes v). dated aa"
    and vs: "\<forall>v \<in> set vs. \<forall>aa \<in> set (variant_attributes v). dated aa" by simp_all
  then obtain a where a: "generate_attributes_search_vector_value cej (variant_attributes v) = Inr a"
    using attributes_vector_loop_dated
    unfolding generate_attributes_search_vector_value_def by blast
  show ?case
    using Cons.IH [OF vs] by (cases a) (simp_all add: a and_then_def)
qed

lemma prepare_vector_dated:
  assumes "dates_ok p"
  shows "\<exists>vec. prepare_product_search_vector_value cej p = Inr vec"
proof -
  from assms have a: "\<forall>aa \<in> set (attributes p). dated aa"
    and v: "\<forall>v \<in> set (variants p). \<forall>aa \<in> set (variant_attributes v). dated aa"
    by (simp_all add: dates_ok_def)
  obtain av where av: "generate_attributes_search_vector_value cej (attributes p) = Inr av"
    using attributes_vector_loop_dated [OF a]
    unfolding generate_attributes_search_vector_value_def by blast
  have "\<exists>vv. generate_variants_search_vector_value cej p = Inr vv"
  proof (cases "variants p = []")
    case True
    then show ?thesis by (simp add: generate_variants_search_vector_value_def)
  next
    case False
    obtain r where "variants_vector_loop cej (variants p)
        (map (\<lambda>v. ([sku v, Some (variant_name v)], CHR ''A'')) (variants p)) = Inr r"
      using variants_vector_loop_dated [OF v] by blast
    with False show ?thesis
      by (simp add: generate_variants_search_vector_value_def and_then_def)
  qed
  then obtain vv where vv: "generate_variants_search_vector_value cej p = Inr vv" by blast
  show ?thesis
    by (simp add: prepare_product_search_vector_value_def Let_def av vv and_then_def)
qed

lemma prepare_vector_search_document:
  "prepare_product_search_vector_value cej (p\<lparr>search_document := d\<rparr>)
     = prepare_product_search_vector_value cej p"
  by (simp add: prepare_product_search_vector_value_def generate_variants_search_vector_value_def)

lemma assign_search_values_Inr:
  "assign_search_values cej p = Inr q \<Longrightarrow>
   \<exists>doc vec. prepare_product_search_document_value cej p = Inr doc
     \<and> prepare_product_search_vector_value cej p = Inr vec
     \<and> q = p\<lparr>search_document := doc, search_vector := Some vec\<rparr>"
  by (auto simp: assign_search_values_def and_then_def Let_def prepare_vector_search_document
      split: sum.splits)

lemma assign_search_values_dated:
  assumes "dates_ok p"
  shows "\<exists>q. assign_search_values cej p = Inr q \<and> product_pk q = product_pk p"
proof -
  obtain doc where "prepare_product_search_document_value cej p = Inr doc"
    using prepare_document_dated [OF assms] by blast
  moreover obtain vec where "prepare_product_search_vector_value cej p = Inr vec"
    using prepare_vector_dated [OF assms] by blast
  ultimately show ?thesis
    by (simp add: assign_search_values_def and_then_def Let_def prepare_vector_search_document)
qed

lemma update_product_search_document_Inr:
  assumes "update_product_search_document cej now p t = Inr (p', t')"
  shows "\<exists>doc vec k row. prepare_product_search_document_value cej p = Inr doc
     \<and> prepare_product_search_vector_value cej p = Inr vec
     \<and> p' = p\<lparr>search_document := doc, search_vector := Some vec, updated_at := now\<rparr>
     \<and> product_pk p = Some k \<and> rows t k = Some row
     \<and> t' = t\<lparr>rows := (rows t)(k \<mapsto> row\<lparr>search_document := doc, updated_at := now\<rparr>)\<rparr>"
proof -
  from assms obtain q where q: "assign_search_values cej p = Inr q"
    by (auto simp: update_product_search_document_def and_then_def split: sum.splits)
  from assign_search_values_Inr [OF q] obtain doc vec where
    d: "prepare_product_search_document_value cej p = Inr doc"
    and v: "prepare_product_search_vector_value cej p = Inr vec"
    and qq: "q = p\<lparr>search_document := doc, search_vector := Some vec\<rparr>" by blast
  from assms show ?thesis
    by (auto simp: update_product_search_document_def and_then_def q qq d v Let_def
        save_update_fields_def write_search_document_def split: option.splits sum.splits)
qed

lemma sequence_Inr:
  "sequence rs = Inr xs \<Longrightarrow> length xs = length rs \<and> (\<forall>i < length rs. rs ! i = Inr (xs ! i))"
proof (induction rs arbitrary: xs)
  case Nil
  then show ?case by simp
next
  case (Cons r rs)
  from Cons.prems obtain y ys where r: "r = Inr y" and ys: "sequence rs = Inr ys" and xs: "xs = y # ys"
    by (auto simp: and_then_def split: sum.splits)
  from Cons.IH [OF ys] have "length ys = length rs" and n: "\<forall>i < length rs. rs ! i = Inr (ys ! i)"
    by simp_all
  then show ?case by (auto simp: r xs nth_Cons split: nat.splits)
qed

lemma sequence_exists:
  "\<forall>r \<in> set rs. \<exists>x. r = Inr x \<and> P x \<Longrightarrow> \<exists>xs. sequence rs = Inr xs \<and> (\<forall>x \<in> set xs. P x)"
proof (induction rs)
  case Nil
  show ?case by simp
next
  case (Cons r rs)
  then obtain x xs where "r = Inr x" "P x" "sequence rs = Inr xs" "\<forall>x \<in> set xs. P x"
    by auto
  then show ?case by (simp add: and_then_def)
qed

text \<open>What \<open>bulk_update\<close> leaves and what it writes.\<close>

lemma bulk_update_frame:
  assumes "bulk_update pk_of write objs t = Inr t'"
  shows "next_pk t' = next_pk t"
    and "rows t j = None \<Longrightarrow> rows t' j = None"
    and "rows t j = Some row \<Longrightarrow> \<forall>q \<in> set objs. pk_of q \<noteq> Some j \<Longrightarrow> rows t' j = Some row"
    and "rows t j = Some row \<Longrightarrow> \<exists>q \<in> set objs. pk_of q = Some j \<Longrightarrow>
         \<exists>q \<in> set objs. pk_of q = Some j \<and> rows t' j = Some (write q row)"
proof -
  from assms have t': "t' = t\<lparr>rows := (\<lambda>k. case rows t k of
                                   None \<Rightarrow> None
                                 | Some row \<Rightarrow>
                                     (case find (\<lambda>obj. pk_of obj = Some k) objs of
                                        None \<Rightarrow> Some row
                                      | Some obj \<Rightarrow> Some (write obj row)))\<rparr>"
    by (simp add: bulk_update_def split: if_splits)
  show "next_pk t' = next_pk t" by (simp add: t')
  show "rows t j = None \<Longrightarrow> rows t' j = None" by (simp add: t')
  show "rows t j = Some row \<Longrightarrow> \<forall>q \<in> set objs. pk_of q \<noteq> Some j \<Longrightarrow> rows t' j = Some row"
  proof -
    assume r: "rows t j = Some row" and n: "\<forall>q \<in> set objs. pk_of q \<noteq> Some j"
    from n have "find (\<lambda>obj. pk_of obj = Some j) objs = None" by (simp add: find_None_iff)
    with r show ?thesis by (simp add: t')
  qed
  show "rows t j = Some row \<Longrightarrow> \<exists>q \<in> set objs. pk_of q = Some j \<Longrightarrow>
         \<exists>q \<in> set objs. pk_of q = Some j \<and> rows t' j = Some (write q row)"
  proof -
    assume r: "rows t j = Some row" and e: "\<exists>q \<in> set objs. pk_of q = Some j"
    from e have "find (\<lambda>obj. pk_of obj = Some j) objs \<noteq> None"
      by (auto simp: find_None_iff)
    then obtain q where q: "find (\<lambda>obj. pk_of obj = Some j) objs = Some q" by blast
    then have "q \<in> set objs" "pk_of q = Some j"
      by (auto simp: find_Some_iff)
    with r q show ?thesis by (auto simp: t')
  qed
qed

lemma bulk_update_search_vector:
  assumes "bulk_update product_pk write_search_document objs t = Inr t'"
  shows "map_option search_vector (rows t' j) = map_option search_vector (rows t j)"
proof -
  from assms have t': "t' = t\<lparr>rows := (\<lambda>k. case rows t k of
                                   None \<Rightarrow> None
                                 | Some row \<Rightarrow>
                                     (case find (\<lambda>obj. product_pk obj = Some k) objs of
                                        None \<Rightarrow> Some row
                                      | Some obj \<Rightarrow> Some (write_search_document obj row)))\<rparr>"
    by (simp add: bulk_update_def split: if_splits)
  show ?thesis by (simp add: t' write_search_document_def split: option.splits)
qed

section \<open>Claims on product search\<close>

text \<open>
  C5. For a product whose date and date-time values all have their \<open>date_time\<close>,
  \<open>prepare_product_search_document_value\<close> returns a document. The document is in lower
  case and contains, in lower case, the rendered value of every value of every attribute of
  a named input type, for the attributes of the product and of its variants. It is made of
  four sections in this order: the product fields, the attribute values, the SKUs of the
  variants and the attribute values of the variants; every section is empty or ends with a
  newline.
\<close>

theorem search_document_contains_rendered_values:
  assumes ok: "dates_ok p"
  shows "\<exists>doc s2 s4 ds. prepare_product_search_document_value cej p = Inr doc
     \<and> doc = generate_product_fields_search_document_value p @ s2 @ lower (variant_skus_data p) @ s4
     \<and> generate_attributes_search_document_value cej (attributes p) = Inr s2
     \<and> sequence (map (\<lambda>v. generate_attributes_search_document_value cej (variant_attributes v))
                   (variants p)) = Inr ds
     \<and> s4 = concat ds
     \<and> terminated (generate_product_fields_search_document_value p) \<and> terminated s2
     \<and> terminated (lower (variant_skus_data p)) \<and> terminated s4
     \<and> lower doc = doc
     \<and> (\<forall>aa \<in> set (attributes p). \<forall>v \<in> set (attribute_values aa). \<forall>r.
           rendered_value cej (attribute aa) v = Some r \<longrightarrow> sublist (lower r) doc)
     \<and> (\<forall>x \<in> set (variants p). \<forall>aa \<in> set (variant_attributes x). \<forall>v \<in> set (attribute_values aa). \<forall>r.
           rendered_value cej (attribute aa) v = Some r \<longrightarrow> sublist (lower r) doc)"
proof -
  let ?F = "generate_product_fields_search_document_value p"
  let ?A = "lower (concat (map (attribute_section cej) (attributes p)))"
  let ?K = "lower (variant_skus_data p)"
  let ?sec = "\<lambda>v. lower (concat (map (attribute_section cej) (variant_attributes v)))"
  let ?V = "concat (map ?sec (variants p))"
  let ?doc = "?F @ ?A @ ?K @ ?V"
  from ok have a: "\<forall>aa \<in> set (attributes p). dated aa"
    and v: "\<forall>v \<in> set (variants p). \<forall>aa \<in> set (variant_attributes v). dated aa"
    by (simp_all add: dates_ok_def)
  have 1: "prepare_product_search_document_value cej p = Inr ?doc"
    using ok by (rule prepare_document_dated)
  have 2: "generate_attributes_search_document_value cej (attributes p) = Inr ?A"
    using a by (rule generate_attributes_document_dated)
  have 3: "sequence (map (\<lambda>v. generate_attributes_search_document_value cej (variant_attributes v))
                   (variants p)) = Inr (map ?sec (variants p))"
    using v by (intro sequence_map_Inr) (simp add: generate_attributes_document_dated)
  have t1: "terminated ?F" by (rule terminated_fields)
  have t2: "terminated ?A" by (rule terminated_sections)
  have t3: "terminated ?K" by (rule terminated_skus)
  have t4: "terminated ?V" by (intro terminated_concat) (simp add: terminated_sections)
  have low: "lower ?doc = ?doc"
    by (simp add: lower_append lower_idem lower_lower_concat
        generate_product_fields_search_document_value_def Let_def)
  have pa: "\<forall>aa \<in> set (attributes p). \<forall>v \<in> set (attribute_values aa). \<forall>r.
           rendered_value cej (attribute aa) v = Some r \<longrightarrow> sublist (lower r) ?doc"
  proof (intro ballI allI impI)
    fix aa v r
    assume "aa \<in> set (attributes p)" "v \<in> set (attribute_values aa)"
      "rendered_value cej (attribute aa) v = Some r"
    then have "sublist (lower r) ?A" by (rule rendered_in_sections)
    then obtain ps ss where "?A = ps @ lower r @ ss" by (auto simp: sublist_def)
    then have "?doc = (?F @ ps) @ lower r @ (ss @ ?K @ ?V)" by simp
    then show "sublist (lower r) ?doc" unfolding sublist_def by blast
  qed
  have pv: "\<forall>x \<in> set (variants p). \<forall>aa \<in> set (variant_attributes x). \<forall>v \<in> set (attribute_values aa). \<forall>r.
           rendered_value cej (attribute aa) v = Some r \<longrightarrow> sublist (lower r) ?doc"
  proof (intro ballI allI impI)
    fix x aa v r
    assume x: "x \<in> set (variants p)" and "aa \<in> set (variant_attributes x)"
      "v \<in> set (attribute_values aa)" "rendered_value cej (attribute aa) v = Some r"
    then have "sublist (lower r) (?sec x)" by (intro rendered_in_sections)
    moreover have "sublist (?sec x) ?V" using x by (intro sublist_concat) simp
    ultimately have "sublist (lower r) ?V" by (rule sublist_trans)
    then obtain ps ss where "?V = ps @ lower r @ ss" by (auto simp: sublist_def)
    then have "?doc = (?F @ ?A @ ?K @ ps) @ lower r @ ss" by simp
    then show "sublist (lower r) ?doc" unfolding sublist_def by blast
  qed
  from 1 2 3 t1 t2 t3 t4 low pa pv show ?thesis by blast
qed

text \<open>
  An example with a dropdown, a rich-text, a numeric and a date attribute; as
  \<open>clean_editor_js\<close> it takes the function that returns a string as it is.
\<close>

theorem search_document_contains_rendered_values_witness:
  "\<exists>doc. prepare_product_search_document_value (\<lambda>j. case j of JStr s \<Rightarrow> s | _ \<Rightarrow> [])
      \<lparr>product_pk = Some 1, product_name = ''Blue Shirt'', description_plaintext = ''Cotton'',
       search_document = [], search_vector = None, updated_at = 0,
       attributes =
         [\<lparr>attribute = \<lparr>input_type = DROPDOWN, attribute_unit = None\<rparr>,
           attribute_values = [\<lparr>value_name = ''Red'', rich_text = JNull, date_time = None\<rparr>]\<rparr>,
          \<lparr>attribute = \<lparr>input_type = RICH_TEXT, attribute_unit = None\<rparr>,
           attribute_values = [\<lparr>value_name = ''r'', rich_text = JStr ''Soft'', date_time = None\<rparr>]\<rparr>,
          \<lparr>attribute = \<lparr>input_type = NUMERIC, attribute_unit = Some ''KG''\<rparr>,
           attribute_values = [\<lparr>value_name = ''12'', rich_text = JNull, date_time = None\<rparr>]\<rparr>,
          \<lparr>attribute = \<lparr>input_type = DATE, attribute_unit = None\<rparr>,
           attribute_values =
             [\<lparr>value_name = ''d'', rich_text = JNull,
               date_time = Some \<lparr>year = 2021, month = 3, day = 9, hour = 7, minute = 5,
                                  second = 0, microsecond = 0, utcoffset = Some 0\<rparr>\<rparr>]\<rparr>],
       variants = [\<lparr>sku = Some ''SKU-1'', variant_name = ''v1'', variant_attributes = []\<rparr>]\<rparr>
      = Inr doc
    \<and> doc = ''blue shirt\<newline>cotton\<newline>red\<newline>soft\<newline>12kg\<newline>2021-03-09t07:05:00+00:00\<newline>sku-1\<newline>''
    \<and> sublist ''red'' doc \<and> sublist ''soft'' doc \<and> sublist ''12kg'' doc
    \<and> sublist ''2021-03-09t07:05:00+00:00'' doc"
proof -
  let ?cej = "\<lambda>j. case j of JStr s \<Rightarrow> s | _ \<Rightarrow> []"
  let ?dt = "\<lparr>year = 2021, month = 3, day = 9, hour = 7, minute = 5,
              second = 0, microsecond = 0, utcoffset = Some 0\<rparr>"
  let ?a1 = "\<lparr>attribute = \<lparr>input_type = DROPDOWN, attribute_unit = None\<rparr>,
           attribute_values = [\<lparr>value_name = ''Red'', rich_text = JNull, date_time = None\<rparr>]\<rparr>"
  let ?a2 = "\<lparr>attribute = \<lparr>input_type = RICH_TEXT, attribute_unit = None\<rparr>,
           attribute_values = [\<lparr>value_name = ''r'', rich_text = JStr ''Soft'', date_time = None\<rparr>]\<rparr>"
  let ?a3 = "\<lparr>attribute = \<lparr>input_type = NUMERIC, attribute_unit = Some ''KG''\<rparr>,
           attribute_values = [\<lparr>value_name = ''12'', rich_text = JNull, date_time = None\<rparr>]\<rparr>"
  let ?a4 = "\<lparr>attribute = \<lparr>input_type = DATE, attribute_unit = None\<rparr>,
           attribute_values = [\<lparr>value_name = ''d'', rich_text = JNull, date_time = Some ?dt\<rparr>]\<rparr>"
  let ?p = "\<lparr>product_pk = Some 1, product_name = ''Blue Shirt'', description_plaintext = ''Cotton'',
       search_document = [], search_vector = None, updated_at = 0,
       attributes = [?a1, ?a2, ?a3, ?a4],
       variants = [\<lparr>sku = Some ''SKU-1'', variant_name = ''v1'', variant_attributes = []\<rparr>]\<rparr>"
  have e: "prepare_product_search_document_value ?cej ?p
      = Inr ''blue shirt\<newline>cotton\<newline>red\<newline>soft\<newline>12kg\<newline>2021-03-09t07:05:00+00:00\<newline>sku-1\<newline>''"
    by code_simp
  have iso: "isoformat ?dt = ''2021-03-09T07:05:00+00:00''" by code_simp
  have l1: "lower ''Red'' = ''red''" and l2: "lower ''Soft'' = ''soft''"
    and l3: "lower ''12KG'' = ''12kg''"
    and l4: "lower ''2021-03-09T07:05:00+00:00'' = ''2021-03-09t07:05:00+00:00''"
    by code_simp+
  have ok: "dates_ok ?p" by (simp add: dates_ok_def dated_def)
  from search_document_contains_rendered_values [OF ok, of ?cej]
  obtain doc where d: "prepare_product_search_document_value ?cej ?p = Inr doc"
    and pa: "\<forall>aa \<in> set (attributes ?p). \<forall>v \<in> set (attribute_values aa). \<forall>r.
           rendered_value ?cej (attribute aa) v = Some r \<longrightarrow> sublist (lower r) doc"
    by blast
  have s1: "sublist ''red'' doc"
    using pa [rule_format, of ?a1 "\<lparr>value_name = ''Red'', rich_text = JNull, date_time = None\<rparr>" "''Red''"]
    by (simp add: rendered_value_def l1)
  have s2: "sublist ''soft'' doc"
    using pa [rule_format, of ?a2 "\<lparr>value_name = ''r'', rich_text = JStr ''Soft'', date_time = None\<rparr>" "''Soft''"]
    by (simp add: rendered_value_def l2)
  have s3: "sublist ''12kg'' doc"
    using pa [rule_format, of ?a3 "\<lparr>value_name = ''12'', rich_text = JNull, date_time = None\<rparr>" "''12KG''"]
    by (simp add: rendered_value_def l3)
  have s4: "sublist ''2021-03-09t07:05:00+00:00'' doc"
    using pa [rule_format, of ?a4 "\<lparr>value_name = ''d'', rich_text = JNull, date_time = Some ?dt\<rparr>"
        "''2021-03-09T07:05:00+00:00''"]
    by (simp add: rendered_value_def iso l4)
  from d e have "doc = ''blue shirt\<newline>cotton\<newline>red\<newline>soft\<newline>12kg\<newline>2021-03-09t07:05:00+00:00\<newline>sku-1\<newline>''"
    by simp
  with d s1 s2 s3 s4 show ?thesis by blast
qed

text \<open>
  C9. When \<open>update_product_search_document\<close> returns, the product in memory holds the
  new search vector, and the table is the one before the call with the new document and
  the time of the save in the product's row: the stored \<open>search_vector\<close> of every row is
  what it was. When \<open>update_products_search_document\<close> returns, every product in memory
  holds its new document and its new search vector, and in the table a row whose key is
  the key of one of the products has the document and the \<open>updated_at\<close> of such a
  product and is otherwise what it was, every other row is what it was, no row is added or
  removed, and the stored \<open>search_vector\<close> of every row is what it was. Both return for
  stored products whose date and date-time values all have their \<open>date_time\<close>.
\<close>

theorem search_vector_is_not_persisted:
  "(update_product_search_document cej now p t = Inr (p', t') \<longrightarrow>
      (\<exists>vec. prepare_product_search_vector_value cej p = Inr vec \<and> search_vector p' = Some vec)
      \<and> (\<forall>j. map_option search_vector (rows t' j) = map_option search_vector (rows t j))
      \<and> (\<exists>j row doc. product_pk p = Some j \<and> rows t j = Some row
            \<and> prepare_product_search_document_value cej p = Inr doc
            \<and> t' = t\<lparr>rows := (rows t)(j \<mapsto> row\<lparr>search_document := doc, updated_at := now\<rparr>)\<rparr>))
   \<and> (dates_ok p \<and> product_pk p = Some k \<and> rows t k \<noteq> None \<longrightarrow>
        (\<exists>q' u'. update_product_search_document cej now p t = Inr (q', u')))
   \<and> (update_products_search_document cej ps t = Inr (ps', t'') \<longrightarrow>
        length ps' = length ps
        \<and> (\<forall>i < length ps. \<exists>doc vec. prepare_product_search_document_value cej (ps ! i) = Inr doc
               \<and> prepare_product_search_vector_value cej (ps ! i) = Inr vec
               \<and> ps' ! i = (ps ! i)\<lparr>search_document := doc, search_vector := Some vec\<rparr>)
        \<and> (\<forall>j. map_option search_vector (rows t'' j) = map_option search_vector (rows t j))
        \<and> next_pk t'' = next_pk t
        \<and> (\<forall>j. rows t j = None \<longrightarrow> rows t'' j = None)
        \<and> (\<forall>j row. rows t j = Some row \<and> (\<forall>q \<in> set ps'. product_pk q \<noteq> Some j) \<longrightarrow>
              rows t'' j = Some row)
        \<and> (\<forall>j row. rows t j = Some row \<and> (\<exists>q \<in> set ps'. product_pk q = Some j) \<longrightarrow>
              (\<exists>q \<in> set ps'. product_pk q = Some j
                 \<and> rows t'' j = Some (row\<lparr>search_document := search_document q,
                                           updated_at := updated_at q\<rparr>))))
   \<and> ((\<forall>q \<in> set ps. dates_ok q \<and> product_pk q \<noteq> None) \<longrightarrow>
        (\<exists>qs' u'. update_products_search_document cej ps t = Inr (qs', u')))"
proof (intro conjI impI)
  assume a: "update_product_search_document cej now p t = Inr (p', t')"
  from update_product_search_document_Inr [OF a] obtain doc vec j row where
    d: "prepare_product_search_document_value cej p = Inr doc"
    and v: "prepare_product_search_vector_value cej p = Inr vec"
    and p': "p' = p\<lparr>search_document := doc, search_vector := Some vec, updated_at := now\<rparr>"
    and k: "product_pk p = Some j" "rows t j = Some row"
    and t': "t' = t\<lparr>rows := (rows t)(j \<mapsto> row\<lparr>search_document := doc, updated_at := now\<rparr>)\<rparr>"
    by blast
  show "\<exists>vec. prepare_product_search_vector_value cej p = Inr vec \<and> search_vector p' = Some vec"
    by (simp add: v p')
  show "\<forall>j. map_option search_vector (rows t' j) = map_option search_vector (rows t j)"
    using k by (simp add: t')
  show "\<exists>j row doc. product_pk p = Some j \<and> rows t j = Some row
            \<and> prepare_product_search_document_value cej p = Inr doc
            \<and> t' = t\<lparr>rows := (rows t)(j \<mapsto> row\<lparr>search_document := doc, updated_at := now\<rparr>)\<rparr>"
    using d k t' by blast
next
  assume a: "dates_ok p \<and> product_pk p = Some k \<and> rows t k \<noteq> None"
  then obtain q where q: "assign_search_values cej p = Inr q" "product_pk q = product_pk p"
    using assign_search_values_dated by blast
  with a show "\<exists>q' u'. update_product_search_document cej now p t = Inr (q', u')"
    by (auto simp: update_product_search_document_def and_then_def Let_def save_update_fields_def)
next
  assume a: "update_products_search_document cej ps t = Inr (ps', t'')"
  then have s: "sequence (map (assign_search_values cej) ps) = Inr ps'"
    and b: "bulk_update product_pk write_search_document ps' t = Inr t''"
    by (auto simp: update_products_search_document_def and_then_def split: sum.splits)
  from sequence_Inr [OF s] have len: "length ps' = length ps"
    and nth: "\<forall>i < length ps. assign_search_values cej (ps ! i) = Inr (ps' ! i)"
    by simp_all
  show "length ps' = length ps" by (rule len)
  show "\<forall>i < length ps. \<exists>doc vec. prepare_product_search_document_value cej (ps ! i) = Inr doc
               \<and> prepare_product_search_vector_value cej (ps ! i) = Inr vec
               \<and> ps' ! i = (ps ! i)\<lparr>search_document := doc, search_vector := Some vec\<rparr>"
  proof (intro allI impI)
    fix i assume "i < length ps"
    with nth have "assign_search_values cej (ps ! i) = Inr (ps' ! i)" by simp
    from assign_search_values_Inr [OF this]
    show "\<exists>doc vec. prepare_product_search_document_value cej (ps ! i) = Inr doc
               \<and> prepare_product_search_vector_value cej (ps ! i) = Inr vec
               \<and> ps' ! i = (ps ! i)\<lparr>search_document := doc, search_vector := Some vec\<rparr>"
      by blast
  qed
  show "\<forall>j. map_option search_vector (rows t'' j) = map_option search_vector (rows t j)"
    using bulk_update_search_vector [OF b] by blast
  show "next_pk t'' = next_pk t" by (rule bulk_update_frame(1) [OF b])
  show "\<forall>j. rows t j = None \<longrightarrow> rows t'' j = None"
    using bulk_update_frame(2) [OF b] by blast
  show "\<forall>j row. rows t j = Some row \<and> (\<forall>q \<in> set ps'. product_pk q \<noteq> Some j) \<longrightarrow>
              rows t'' j = Some row"
    using bulk_update_frame(3) [OF b] by blast
  show "\<forall>j row. rows t j = Some row \<and> (\<exists>q \<in> set ps'. product_pk q = Some j) \<longrightarrow>
              (\<exists>q \<in> set ps'. product_pk q = Some j
                 \<and> rows t'' j = Some (row\<lparr>search_document := search_document q,
                                           updated_at := updated_at q\<rparr>))"
  proof (intro allI impI)
    fix j row
    assume "rows t j = Some row \<and> (\<exists>q \<in> set ps'. product_pk q = Some j)"
    then have "\<exists>q \<in> set ps'. product_pk q = Some j
        \<and> rows t'' j = Some (write_search_document q row)"
      using bulk_update_frame(4) [OF b] by blast
    then show "\<exists>q \<in> set ps'. product_pk q = Some j
                 \<and> rows t'' j = Some (row\<lparr>search_document := search_document q,
                                           updated_at := updated_at q\<rparr>)"
      by (simp add: write_search_document_def)
  qed
next
  assume a: "\<forall>q \<in> set ps. dates_ok q \<and> product_pk q \<noteq> None"
  then have "\<forall>r \<in> set (map (assign_search_values cej) ps). \<exists>x. r = Inr x \<and> product_pk x \<noteq> None"
    using assign_search_values_dated by fastforce
  from sequence_exists [OF this] obtain xs where
    "sequence (map (assign_search_values cej) ps) = Inr xs" "\<forall>x \<in> set xs. product_pk x \<noteq> None"
    by blast
  then show "\<exists>qs' u'. update_products_search_document cej ps t = Inr (qs', u')"
    by (simp add: update_products_search_document_def and_then_def bulk_update_def)
qed

text \<open>
  A table of two products, and the first of them updated, alone and as a list of one:
  its stored row takes the document (and, from \<open>save\<close>, the time), its stored vector
  stays empty, and the row of the second product stays as it was.
\<close>

theorem search_vector_is_not_persisted_witness:
  "(\<exists>p' t'. update_product_search_document (\<lambda>j. case j of JStr s \<Rightarrow> s | _ \<Rightarrow> []) 9
       \<lparr>product_pk = Some 1, product_name = ''Blue Shirt'', description_plaintext = ''Cotton'',
        search_document = [], search_vector = None, updated_at = 3, attributes = [], variants = []\<rparr>
       \<lparr>rows = [1 \<mapsto> \<lparr>product_pk = Some 1, product_name = ''Blue Shirt'',
                       description_plaintext = ''Cotton'', search_document = [],
                       search_vector = None, updated_at = 3\<rparr>,
                2 \<mapsto> \<lparr>product_pk = Some 2, product_name = ''Red Hat'',
                       description_plaintext = ''Wool'', search_document = ''old'',
                       search_vector = None, updated_at = 4\<rparr>], next_pk = 3\<rparr>
       = Inr (p', t')
     \<and> search_vector p' = Some [([Some ''Blue Shirt''], CHR ''A''), ([Some ''Cotton''], CHR ''C'')]
     \<and> rows t' 1 = Some \<lparr>product_pk = Some 1, product_name = ''Blue Shirt'',
                          description_plaintext = ''Cotton'',
                          search_document = ''blue shirt\<newline>cotton\<newline>'',
                          search_vector = None, updated_at = 9\<rparr>
     \<and> rows t' 2 = Some \<lparr>product_pk = Some 2, product_name = ''Red Hat'',
                          description_plaintext = ''Wool'', search_document = ''old'',
                          search_vector = None, updated_at = 4\<rparr>)
   \<and> (\<exists>ps' t'. update_products_search_document (\<lambda>j. case j of JStr s \<Rightarrow> s | _ \<Rightarrow> [])
       [\<lparr>product_pk = Some 1, product_name = ''Blue Shirt'', description_plaintext = ''Cotton'',
         search_document = [], search_vector = None, updated_at = 3, attributes = [], variants = []\<rparr>]
       \<lparr>rows = [1 \<mapsto> \<lparr>product_pk = Some 1, product_name = ''Blue Shirt'',
                       description_plaintext = ''Cotton'', search_document = [],
                       search_vector = None, updated_at = 3\<rparr>,
                2 \<mapsto> \<lparr>product_pk = Some 2, product_name = ''Red Hat'',
                       description_plaintext = ''Wool'', search_document = ''old'',
                       search_vector = None, updated_at = 4\<rparr>], next_pk = 3\<rparr>
       = Inr (ps', t')
     \<and> search_vector (ps' ! 0) = Some [([Some ''Blue Shirt''], CHR ''A''), ([Some ''Cotton''], CHR ''C'')]
     \<and> rows t' 1 = Some \<lparr>product_pk = Some 1, product_name = ''Blue Shirt'',
                          description_plaintext = ''Cotton'',
                          search_document = ''blue shirt\<newline>cotton\<newline>'',
                          search_vector = None, updated_at = 3\<rparr>
     \<and> rows t' 2 = Some \<lparr>product_pk = Some 2, product_name = ''Red Hat'',
                          description_plaintext = ''Wool'', search_document = ''old'',
                          search_vector = None, updated_at = 4\<rparr>
     \<and> rows t' 3 = None \<and> next_pk t' = 3)"
proof -
  let ?cej = "\<lambda>j. case j of JStr s \<Rightarrow> s | _ \<Rightarrow> []"
  let ?p = "\<lparr>product_pk = Some 1, product_name = ''Blue Shirt'', description_plaintext = ''Cotton'',
        search_document = [], search_vector = None, updated_at = 3, attributes = [], variants = []\<rparr>"
  let ?row = "\<lparr>product_pk = Some 1, product_name = ''Blue Shirt'',
                       description_plaintext = ''Cotton'', search_document = [],
                       search_vector = None, updated_at = 3\<rparr>"
  let ?row2 = "\<lparr>product_pk = Some 2, product_name = ''Red Hat'',
                       description_plaintext = ''Wool'', search_document = ''old'',
                       search_vector = None, updated_at = 4\<rparr>"
  let ?t = "\<lparr>rows = [1 \<mapsto> ?row, 2 \<mapsto> ?row2], next_pk = 3\<rparr>"
  let ?vec = "[([Some ''Blue Shirt''], CHR ''A''), ([Some ''Cotton''], CHR ''C'')]"
  let ?doc = "''blue shirt\<newline>cotton\<newline>''"
  have ok: "dates_ok ?p" by (simp add: dates_ok_def)
  have vec: "prepare_product_search_vector_value ?cej ?p = Inr ?vec"
    by code_simp
  have doc: "prepare_product_search_document_value ?cej ?p = Inr ?doc"
    by code_simp
  note th = search_vector_is_not_persisted [where cej = ?cej and now = 9 and p = ?p and t = ?t
      and k = 1 and ps = "[?p]"]
  have "\<exists>q' u'. update_product_search_document ?cej 9 ?p ?t = Inr (q', u')"
    using th [THEN conjunct2, THEN conjunct1] ok by simp
  then obtain p' t' where
    r: "update_product_search_document ?cej 9 ?p ?t = Inr (p', t')" by blast
  note c1 = th [where p' = p' and t' = t', THEN conjunct1, rule_format, OF r]
  from c1 vec have 1: "search_vector p' = Some ?vec"
    by auto
  from c1 doc
  have 2: "rows t' 1 = Some (?row\<lparr>search_document := ?doc, updated_at := 9\<rparr>)"
    and 8: "rows t' 2 = Some ?row2"
    by auto
  have "\<exists>qs' u'. update_products_search_document ?cej [?p] ?t = Inr (qs', u')"
    using th [THEN conjunct2, THEN conjunct2, THEN conjunct2] ok by simp
  then obtain ps' u' where
    rb: "update_products_search_document ?cej [?p] ?t = Inr (ps', u')" by blast
  note c3 = th [where ps' = ps' and t'' = u', THEN conjunct2, THEN conjunct2, THEN conjunct1,
      THEN mp, OF rb]
  from c3 have len: "length ps' = 1" by simp
  from c3 have "\<exists>doc vec. prepare_product_search_document_value ?cej ([?p] ! 0) = Inr doc
               \<and> prepare_product_search_vector_value ?cej ([?p] ! 0) = Inr vec
               \<and> ps' ! 0 = ([?p] ! 0)\<lparr>search_document := doc, search_vector := Some vec\<rparr>"
    by simp
  with vec doc have p0: "ps' ! 0 = ?p\<lparr>search_document := ?doc, search_vector := Some ?vec\<rparr>"
    by simp
  from len obtain q where "ps' = [q]" by (cases ps') auto
  with p0 have ps': "ps' = [?p\<lparr>search_document := ?doc, search_vector := Some ?vec\<rparr>]" by simp
  have 3: "search_vector (ps' ! 0) = Some ?vec" by (simp add: ps')
  have in1: "rows ?t 1 = Some ?row \<and> (\<exists>q \<in> set ps'. product_pk q = Some 1)" by (simp add: ps')
  have in2: "rows ?t 2 = Some ?row2 \<and> (\<forall>q \<in> set ps'. product_pk q \<noteq> Some 2)" by (simp add: ps')
  have in3: "rows ?t 3 = None" by simp
  from c3 in1 have "\<exists>q \<in> set ps'. product_pk q = Some 1
      \<and> rows u' 1 = Some (?row\<lparr>search_document := search_document q, updated_at := updated_at q\<rparr>)"
    by blast
  then have 4: "rows u' 1 = Some (?row\<lparr>search_document := ?doc, updated_at := 3\<rparr>)"
    by (simp add: ps')
  from c3 in2 have 5: "rows u' 2 = Some ?row2" by blast
  from c3 in3 have 6: "rows u' 3 = None" by blast
  from c3 have 7: "next_pk u' = 3" by simp
  from r 1 2 8 rb 3 4 5 6 7 show ?thesis by auto
qed


end
